theory Spec2Isabelle
  imports Complex_Main "HOL-Library.Multiset"
begin

section \<open>Numbers\<close>

text \<open>
  The engine computes with JavaScript numbers. They are modelled by exact reals: sums,
  products, comparisons, \<open>Math.floor\<close> and \<open>Math.round\<close> are the exact ones, and
  no rounding error of the binary representation, no \<open>NaN\<close> and no infinity is modelled.
  A quotient whose divisor is zero is therefore outside the model; the only unguarded
  divisions of the engine are by \<open>config.maxSEE / config.maxCIE\<close> and by the rounding
  multiplier, so the model speaks for configurations with non-zero \<open>maxCIE\<close> and
  \<open>maxSEE\<close>.
\<close>

type_synonym number = real

text \<open>\<open>Math.floor\<close> and \<open>Math.round\<close> (the latter rounds halves upwards).\<close>

definition Math_floor :: "number \<Rightarrow> number" where
  "Math_floor x = of_int \<lfloor>x\<rfloor>"

definition Math_round :: "number \<Rightarrow> number" where
  "Math_round x = of_int \<lfloor>x + 1 / 2\<rfloor>"

text \<open>\<open>Math.pow(10, digits)\<close> for an integral number of digits.\<close>

definition Math_pow10 :: "int \<Rightarrow> number" where
  "Math_pow10 d = (if 0 \<le> d then 10 ^ nat d else 1 / 10 ^ nat (- d))"

section \<open>Type definitions of the engine\<close>

text \<open>
  Field names follow \<open>SGPAEngine.ts\<close>; where two interfaces share a field name, or the
  name is a constant of HOL, a letter is appended (\<open>min\<close> of a bucket is \<open>minB\<close>, its
  \<open>gp\<close> is \<open>gpB\<close>).
\<close>

record GradeBucket =
  minB :: number
  gpB :: number
  label :: "string option"

record Subject =
  code :: string
  name :: string
  cie :: number
  see :: number
  credits :: number

text \<open>A subject result repeats the five fields of the subject and adds four.\<close>

record SubjectResult = Subject +
  seeScaled :: number
  total :: number
  gp :: number
  weighted :: number

record SGPAResult =
  subjects :: "SubjectResult list"
  sgpa :: number
  totalCredits :: number
  totalWeighted :: number
  maxSgpaIfAll100 :: number

record GradingConfig =
  maxCIE :: number
  maxSEE :: number
  buckets :: "GradeBucket list"
  roundingDigits :: int

definition DEFAULT_GRADING_CONFIG :: GradingConfig where
  "DEFAULT_GRADING_CONFIG = \<lparr>
     maxCIE = 50,
     maxSEE = 100,
     buckets = [
       \<lparr>minB = 90, gpB = 10, label = Some ''O''\<rparr>,
       \<lparr>minB = 80, gpB = 9, label = Some ''A+''\<rparr>,
       \<lparr>minB = 70, gpB = 8, label = Some ''A''\<rparr>,
       \<lparr>minB = 60, gpB = 7, label = Some ''B+''\<rparr>,
       \<lparr>minB = 50, gpB = 6, label = Some ''B''\<rparr>,
       \<lparr>minB = 40, gpB = 5, label = Some ''C''\<rparr>,
       \<lparr>minB = 0, gpB = 4, label = Some ''F''\<rparr>],
     roundingDigits = 2\<rparr>"

section \<open>Core calculation functions\<close>

text \<open>
  \<open>Array.prototype.sort\<close> with a comparator is stable: an element goes before the
  first element of the sorted rest that the comparator does not put before it.
\<close>

fun insertBy :: "('a \<Rightarrow> 'a \<Rightarrow> number) \<Rightarrow> 'a \<Rightarrow> 'a list \<Rightarrow> 'a list" where
  "insertBy cmp x [] = [x]"
| "insertBy cmp x (y # ys) =
     (if cmp x y \<le> 0 then x # y # ys else y # insertBy cmp x ys)"

definition sortBy :: "('a \<Rightarrow> 'a \<Rightarrow> number) \<Rightarrow> 'a list \<Rightarrow> 'a list" where
  "sortBy cmp xs = foldr (insertBy cmp) xs []"

definition scaleSEE :: "number \<Rightarrow> GradingConfig \<Rightarrow> number" where
  "scaleSEE s config = s / (maxSEE config / maxCIE config)"

definition calculateTotal :: "number \<Rightarrow> number \<Rightarrow> GradingConfig \<Rightarrow> number" where
  "calculateTotal c s config = c + scaleSEE s config"

text \<open>The \<open>for\<close> loop of \<open>gpForTotal\<close> over the sorted buckets, with its fallback 0.\<close>

fun firstBucket :: "number \<Rightarrow> GradeBucket list \<Rightarrow> number" where
  "firstBucket t [] = 0"
| "firstBucket t (bucket # rest) =
     (if minB bucket \<le> t then gpB bucket else firstBucket t rest)"

definition sortedBuckets :: "GradingConfig \<Rightarrow> GradeBucket list" where
  "sortedBuckets config = sortBy (\<lambda>a b. minB b - minB a) (buckets config)"

definition gpForTotal :: "number \<Rightarrow> GradingConfig \<Rightarrow> number" where
  "gpForTotal t config = firstBucket t (sortedBuckets config)"

definition calculateWeightedPoints :: "number \<Rightarrow> number \<Rightarrow> number" where
  "calculateWeightedPoints g c = g * c"

definition roundTo :: "number \<Rightarrow> int \<Rightarrow> number" where
  "roundTo v digits = Math_round (v * Math_pow10 digits) / Math_pow10 digits"

definition subjectResult :: "GradingConfig \<Rightarrow> Subject \<Rightarrow> SubjectResult" where
  "subjectResult config subject =
     (let sc = scaleSEE (see subject) config;
          tot = cie subject + sc;
          g = gpForTotal tot config;
          w = calculateWeightedPoints g (credits subject)
      in \<lparr>code = code subject, name = name subject, cie = cie subject,
          see = see subject, credits = credits subject,
          seeScaled = sc, total = tot, gp = g, weighted = w\<rparr>)"

definition maxWeightedOf :: "GradingConfig \<Rightarrow> Subject \<Rightarrow> number" where
  "maxWeightedOf config s =
     (let subject = s\<lparr>see := maxSEE config\<rparr>;
          sc = scaleSEE (see subject) config;
          tot = cie subject + sc;
          g = gpForTotal tot config
      in calculateWeightedPoints g (credits subject))"

definition calculateSGPA :: "Subject list \<Rightarrow> GradingConfig \<Rightarrow> SGPAResult" where
  "calculateSGPA subjs config =
     (let results = map (subjectResult config) subjs;
          totalCredits = foldl (\<lambda>sum r. sum + credits r) 0 results;
          totalWeighted = foldl (\<lambda>sum r. sum + weighted r) 0 results;
          sgpa = (if totalCredits > 0 then totalWeighted / totalCredits else 0);
          maxResults = map (maxWeightedOf config) subjs;
          maxWeighted = foldl (\<lambda>sum w. sum + w) 0 maxResults;
          maxSgpaIfAll100 = (if totalCredits > 0 then maxWeighted / totalCredits else 0)
      in \<lparr>subjects = results,
          sgpa = roundTo sgpa (roundingDigits config),
          totalCredits = totalCredits,
          totalWeighted = totalWeighted,
          maxSgpaIfAll100 = roundTo maxSgpaIfAll100 (roundingDigits config)\<rparr>)"

section \<open>Validation\<close>

text \<open>
  \<open>validateSubject\<close> collects messages and never throws. The two range messages
  interpolate the configured maximum, kept here as the constructor's argument.
\<close>

datatype ValidationMessage =
    CIE_must_be_between_0_and number
  | SEE_must_be_between_0_and number
  | Credits_must_be_positive
  | Subject_code_and_name_are_required

record Validation =
  valid :: bool
  errors :: "ValidationMessage list"

definition validateSubject :: "Subject \<Rightarrow> GradingConfig \<Rightarrow> Validation" where
  "validateSubject subject config =
     (let e1 = (if cie subject < 0 \<or> cie subject > maxCIE config
                then [CIE_must_be_between_0_and (maxCIE config)] else []);
          e2 = (if see subject < 0 \<or> see subject > maxSEE config
                then [SEE_must_be_between_0_and (maxSEE config)] else []);
          e3 = (if credits subject \<le> 0 then [Credits_must_be_positive] else []);
          e4 = (if code subject = [] \<or> name subject = []
                then [Subject_code_and_name_are_required] else []);
          errs = e1 @ e2 @ e3 @ e4
      in \<lparr>valid = (length errs = 0), errors = errs\<rparr>)"

section \<open>Critical SEE calculations\<close>

record CriticalSEE =
  cutoffTotal :: number
  seeCrit :: number
  gpC :: number
  reachable :: bool

definition criticalOf :: "number \<Rightarrow> GradingConfig \<Rightarrow> GradeBucket \<Rightarrow> CriticalSEE" where
  "criticalOf c config bucket =
     (let cutoff = minB bucket;
          crit = (cutoff - c) * (maxSEE config / maxCIE config);
          reach = (crit \<ge> 0 \<and> crit \<le> maxSEE config)
      in \<lparr>cutoffTotal = cutoff,
          seeCrit = max 0 (min (maxSEE config) crit),
          gpC = gpB bucket,
          reachable = reach\<rparr>)"

definition calculateCriticalSEEValues :: "number \<Rightarrow> GradingConfig \<Rightarrow> CriticalSEE list" where
  "calculateCriticalSEEValues c config =
     sortBy (\<lambda>a b. seeCrit a - seeCrit b) (map (criticalOf c config) (buckets config))"

section \<open>Planning algorithms\<close>

record SubjectPlan =
  codeP :: string
  nameP :: string
  currentSee :: number
  minSeeToReachTarget :: number
  achievedSgpa :: number
  possible :: bool
  marginalGain :: number

datatype error = Subject_not_found string

text \<open>\<open>findIndex\<close>: the first index whose element satisfies the test; \<open>None\<close> is -1.\<close>

fun findIndex :: "('a \<Rightarrow> bool) \<Rightarrow> 'a list \<Rightarrow> nat option" where
  "findIndex P [] = None"
| "findIndex P (x # xs) =
     (if P x then Some 0 else map_option Suc (findIndex P xs))"

text \<open>\<open>xs.map((s, idx) => idx === i ? f(s) : s)\<close>: a new array, one element replaced.\<close>

definition mapAt :: "nat \<Rightarrow> ('a \<Rightarrow> 'a) \<Rightarrow> 'a list \<Rightarrow> 'a list" where
  "mapAt i f xs = map (\<lambda>(s, idx). if idx = i then f s else s) (zip xs [0..<length xs])"

text \<open>
  The binary search loop of \<open>findMinimalSEEForTarget\<close>; the pair is
  \<open>(minSee, achievedSgpa)\<close>.
\<close>

function searchLoop ::
  "Subject list \<Rightarrow> nat \<Rightarrow> number \<Rightarrow> GradingConfig \<Rightarrow> number \<Rightarrow> number
     \<Rightarrow> number \<times> number \<Rightarrow> number \<times> number" where
  "searchLoop subjs targetIndex targetSgpa config left right acc =
     (if left \<le> right then
        (if sgpa (calculateSGPA
                   (mapAt targetIndex (\<lambda>s. s\<lparr>see := Math_floor ((left + right) / 2)\<rparr>) subjs)
                   config) \<ge> targetSgpa
         then searchLoop subjs targetIndex targetSgpa config
                left (Math_floor ((left + right) / 2) - 1)
                (Math_floor ((left + right) / 2),
                 sgpa (calculateSGPA
                   (mapAt targetIndex (\<lambda>s. s\<lparr>see := Math_floor ((left + right) / 2)\<rparr>) subjs)
                   config))
         else searchLoop subjs targetIndex targetSgpa config
                (Math_floor ((left + right) / 2) + 1) right acc)
      else acc)"
  by pat_completeness auto
termination
proof (relation "measure (\<lambda>(subjs, targetIndex, targetSgpa, config, left, right, acc).
                            nat (\<lfloor>right\<rfloor> - \<lfloor>left\<rfloor> + 1))")
  show "wf (measure (\<lambda>(subjs, targetIndex, targetSgpa, config, left, right, acc).
                            nat (\<lfloor>right\<rfloor> - \<lfloor>left\<rfloor> + 1)))"
    by simp
next
  fix left right :: number
  fix subjs :: "Subject list" and targetIndex :: nat and targetSgpa :: number
  fix config :: GradingConfig and acc :: "number \<times> number"
  assume le: "left \<le> right"
  have m: "\<lfloor>(left + right) / 2\<rfloor> \<le> \<lfloor>right\<rfloor>"
    using le by (intro floor_mono) simp
  have fl: "\<lfloor>left\<rfloor> \<le> \<lfloor>right\<rfloor>"
    using le by (rule floor_mono)
  show "((subjs, targetIndex, targetSgpa, config, left,
          Math_floor ((left + right) / 2) - 1,
          Math_floor ((left + right) / 2),
          sgpa (calculateSGPA
            (mapAt targetIndex (\<lambda>s. s\<lparr>see := Math_floor ((left + right) / 2)\<rparr>) subjs)
            config)),
         (subjs, targetIndex, targetSgpa, config, left, right, acc))
        \<in> measure (\<lambda>(subjs, targetIndex, targetSgpa, config, left, right, acc).
                            nat (\<lfloor>right\<rfloor> - \<lfloor>left\<rfloor> + 1))"
    using m fl by (simp add: Math_floor_def)
next
  fix left right :: number
  fix subjs :: "Subject list" and targetIndex :: nat and targetSgpa :: number
  fix config :: GradingConfig and acc :: "number \<times> number"
  assume le: "left \<le> right"
  have m: "\<lfloor>left\<rfloor> \<le> \<lfloor>(left + right) / 2\<rfloor>"
    using le by (intro floor_mono) simp
  have fl: "\<lfloor>left\<rfloor> \<le> \<lfloor>right\<rfloor>"
    using le by (rule floor_mono)
  show "((subjs, targetIndex, targetSgpa, config,
          Math_floor ((left + right) / 2) + 1, right, acc),
         (subjs, targetIndex, targetSgpa, config, left, right, acc))
        \<in> measure (\<lambda>(subjs, targetIndex, targetSgpa, config, left, right, acc).
                            nat (\<lfloor>right\<rfloor> - \<lfloor>left\<rfloor> + 1))"
    using m fl by (simp add: Math_floor_def)
qed

declare searchLoop.simps [simp del]

definition findMinimalSEEForTarget ::
  "Subject list \<Rightarrow> string \<Rightarrow> number \<Rightarrow> GradingConfig \<Rightarrow> error + SubjectPlan" where
  "findMinimalSEEForTarget subjs targetSubjectCode targetSgpa config =
     (case findIndex (\<lambda>s. code s = targetSubjectCode) subjs of
        None \<Rightarrow> Inl (Subject_not_found targetSubjectCode)
      | Some targetIndex \<Rightarrow>
          (let currentSubject = subjs ! targetIndex;
               curSee = see currentSubject;
               currentResult = calculateSGPA subjs config;
               testSubjects =
                 mapAt targetIndex (\<lambda>s. s\<lparr>see := min (see s + 1) (maxSEE config)\<rparr>) subjs;
               testResult = calculateSGPA testSubjects config;
               gain = sgpa testResult - sgpa currentResult
           in if sgpa currentResult \<ge> targetSgpa then
                Inr \<lparr>codeP = code currentSubject, nameP = name currentSubject,
                     currentSee = curSee, minSeeToReachTarget = curSee,
                     achievedSgpa = sgpa currentResult, possible = True,
                     marginalGain = gain\<rparr>
              else
                (let (minSee, achieved) =
                       searchLoop subjs targetIndex targetSgpa config
                         curSee (maxSEE config) (- 1, sgpa currentResult)
                 in Inr \<lparr>codeP = code currentSubject, nameP = name currentSubject,
                         currentSee = curSee, minSeeToReachTarget = minSee,
                         achievedSgpa = achieved, possible = (minSee \<noteq> - 1),
                         marginalGain = gain\<rparr>)))"

subsection \<open>The greedy global planner, on a store of subject objects\<close>

text \<open>
  \<open>greedyGlobalPlan\<close> is the one function of the engine that assigns to a field of an
  object (\<open>workingSubjects[bestSubjectIndex].see = toSee\<close>), so its subjects live in a
  store: an object is its address, an array of subjects is the list of the addresses
  of its elements, and a spread \<open>{ ...s }\<close> allocates a new object at the end of the
  store. The objects built for a probe (\<open>testSubjects\<close>, \<open>maxSubjects\<close>) are only read
  by \<open>calculateSGPA\<close> and are passed to it as values.
\<close>

type_synonym addr = nat
type_synonym store = "Subject list"

definition deref :: "store \<Rightarrow> addr list \<Rightarrow> Subject list" where
  "deref h as = map (\<lambda>a. h ! a) as"

record GlobalPlanStep =
  codeS :: string
  nameS :: string
  fromSee :: number
  toSee :: number
  increaseSeeBy :: number
  sgpaAfter :: number

record GlobalPlan =
  steps :: "GlobalPlanStep list"
  finalSgpa :: number
  targetReached :: bool
  bestAttainableSgpa :: number

record GreedyState =
  heap :: store
  stepsAcc :: "GlobalPlanStep list"
  currentResult :: SGPAResult

definition maxIterations :: nat where
  "maxIterations = 1000"

text \<open>
  The inner \<open>for\<close> loop: the pair is \<open>(bestSubjectIndex, bestMarginalGain)\<close>, with
  \<open>None\<close> for the index -1.
\<close>

definition bestSubject ::
  "Subject list \<Rightarrow> SGPAResult \<Rightarrow> GradingConfig \<Rightarrow> nat option \<times> number" where
  "bestSubject ws cur config =
     foldl (\<lambda>(bestIndex, bestGain) i.
              if see (ws ! i) \<ge> maxSEE config then (bestIndex, bestGain)
              else (let testSubjects =
                          mapAt i (\<lambda>s. s\<lparr>see := min (see s + 1) (maxSEE config)\<rparr>) ws;
                        testResult = calculateSGPA testSubjects config;
                        gain = sgpa testResult - sgpa cur
                    in if gain > bestGain then (Some i, gain) else (bestIndex, bestGain)))
           (None, 0) [0..<length ws]"

definition nextSee :: "Subject \<Rightarrow> GradingConfig \<Rightarrow> number" where
  "nextSee subject config =
     (let criticals = calculateCriticalSEEValues (cie subject) config;
          nextCritical = List.find (\<lambda>c. seeCrit c > see subject \<and> reachable c) criticals
      in case nextCritical of
           Some c \<Rightarrow> min (seeCrit c) (maxSEE config)
         | None \<Rightarrow> min (see subject + 1) (maxSEE config))"

text \<open>
  One pass through the body of the \<open>while\<close> loop, after \<open>iterations++\<close>. The boolean
  says whether the pass ended in a \<open>break\<close>.
\<close>

definition greedyBody ::
  "GradingConfig \<Rightarrow> number \<Rightarrow> addr list \<Rightarrow> GreedyState \<Rightarrow> bool \<times> GreedyState" where
  "greedyBody config targetSgpa workingSubjects st =
     (if list_all (\<lambda>s. see s \<ge> maxSEE config) (deref (heap st) workingSubjects)
      then (True, st)
      else
        (case fst (bestSubject (deref (heap st) workingSubjects) (currentResult st) config) of
           None \<Rightarrow> (True, st)
         | Some bestSubjectIndex \<Rightarrow>
             (let a = workingSubjects ! bestSubjectIndex;
                  subject = heap st ! a;
                  from = see subject;
                  to = nextSee subject config;
                  h = (heap st)[a := subject\<lparr>see := to\<rparr>];
                  cur = calculateSGPA (deref h workingSubjects) config;
                  step = \<lparr>codeS = code subject, nameS = name subject,
                          fromSee = from, toSee = to, increaseSeeBy = to - from,
                          sgpaAfter = sgpa cur\<rparr>
              in (sgpa cur \<ge> targetSgpa,
                  \<lparr>heap = h, stepsAcc = stepsAcc st @ [step], currentResult = cur\<rparr>))))"

text \<open>The \<open>while\<close> loop; it returns the final value of \<open>iterations\<close> with the state.\<close>

function greedyLoop ::
  "GradingConfig \<Rightarrow> number \<Rightarrow> addr list \<Rightarrow> nat \<Rightarrow> GreedyState \<Rightarrow> nat \<times> GreedyState" where
  "greedyLoop config targetSgpa workingSubjects iterations st =
     (if sgpa (currentResult st) < targetSgpa \<and> iterations < maxIterations then
        (if fst (greedyBody config targetSgpa workingSubjects st)
         then (iterations + 1, snd (greedyBody config targetSgpa workingSubjects st))
         else greedyLoop config targetSgpa workingSubjects (iterations + 1)
                (snd (greedyBody config targetSgpa workingSubjects st)))
      else (iterations, st))"
  by pat_completeness auto
termination
  by (relation "measure (\<lambda>(config, targetSgpa, workingSubjects, iterations, st).
                           maxIterations - iterations)") auto

declare greedyLoop.simps [simp del]

text \<open>
  The working copy \<open>subjects.map(s => ({ ...s }))\<close> and the loop on it: the new objects
  take the addresses from the end of the store on.
\<close>

definition greedyRun ::
  "store \<Rightarrow> addr list \<Rightarrow> number \<Rightarrow> GradingConfig \<Rightarrow> nat \<times> GreedyState" where
  "greedyRun h subjs targetSgpa config =
     (let h1 = h @ deref h subjs;
          workingSubjects = [length h..<length h + length subjs];
          cur = calculateSGPA (deref h1 workingSubjects) config
      in greedyLoop config targetSgpa workingSubjects 0
           \<lparr>heap = h1, stepsAcc = [], currentResult = cur\<rparr>)"

definition greedyGlobalPlan ::
  "store \<Rightarrow> addr list \<Rightarrow> number \<Rightarrow> GradingConfig \<Rightarrow> GlobalPlan \<times> store" where
  "greedyGlobalPlan h subjs targetSgpa config =
     (let st = snd (greedyRun h subjs targetSgpa config);
          maxSubjects = map (\<lambda>s. s\<lparr>see := maxSEE config\<rparr>) (deref (heap st) subjs);
          maxResult = calculateSGPA maxSubjects config
      in (\<lparr>steps = stepsAcc st,
           finalSgpa = sgpa (currentResult st),
           targetReached = (sgpa (currentResult st) \<ge> targetSgpa),
           bestAttainableSgpa = sgpa maxResult\<rparr>,
          heap st))"

text \<open>
  \<open>calculateSGPA\<close> and \<open>findMinimalSEEForTarget\<close> called on an array of the store: their
  bodies read the subjects (\<open>map\<close>, \<open>reduce\<close>, \<open>findIndex\<close>, indexing, spread) and contain
  no assignment to a parameter, an element or a field, so the store they leave is the
  store they were given.
\<close>

definition calculateSGPA_on ::
  "store \<Rightarrow> addr list \<Rightarrow> GradingConfig \<Rightarrow> SGPAResult \<times> store" where
  "calculateSGPA_on h subjs config = (calculateSGPA (deref h subjs) config, h)"

definition findMinimalSEEForTarget_on ::
  "store \<Rightarrow> addr list \<Rightarrow> string \<Rightarrow> number \<Rightarrow> GradingConfig
     \<Rightarrow> (error + SubjectPlan) \<times> store" where
  "findMinimalSEEForTarget_on h subjs targetSubjectCode targetSgpa config =
     (findMinimalSEEForTarget (deref h subjs) targetSubjectCode targetSgpa config, h)"

section \<open>The backend's calculation utilities\<close>

text \<open>
  \<open>aggregateSGPA\<close> reads the fields \<open>credits\<close>, \<open>cie\<close> and \<open>see\<close> of its subjects; a
  semester is read for its \<open>id\<close>, its \<open>name\<close> and its \<open>subjects\<close>.
\<close>

record ComputedSubjectMetrics =
  totalM :: number
  gpM :: number
  weightedM :: number

record SGPAAggregate =
  sgpaA :: number
  totalCreditsA :: number
  totalWeightedA :: number
  maxSgpaIfAll100A :: number

record Semester =
  semId :: string
  semName :: string
  semSubjects :: "Subject list"

record SemesterBreakdown =
  semesterId :: string
  nameB :: string
  sgpaB :: number
  creditsB :: number

record CGPAAggregate =
  cgpa :: number
  totalCreditsC :: number
  semesterBreakdown :: "SemesterBreakdown list"

definition round2 :: "number \<Rightarrow> number" where
  "round2 n = Math_round (n * 100) / 100"

definition scaleSee :: "number \<Rightarrow> number" where
  "scaleSee s = s / 2"

definition getGradePoint :: "number \<Rightarrow> number" where
  "getGradePoint t =
     (if t \<ge> 90 then 10
      else if t \<ge> 80 then 9
      else if t \<ge> 70 then 8
      else if t \<ge> 60 then 7
      else if t \<ge> 50 then 6
      else if t \<ge> 40 then 5
      else 4)"

definition computeSubjectMetrics :: "number \<Rightarrow> number \<Rightarrow> number \<Rightarrow> ComputedSubjectMetrics" where
  "computeSubjectMetrics c s cr =
     (let t = c + scaleSee s;
          g = getGradePoint t;
          w = g * cr
      in \<lparr>totalM = t, gpM = g, weightedM = w\<rparr>)"

text \<open>A number is truthy when it is not zero.\<close>

definition aggregateSGPA :: "Subject list \<Rightarrow> SGPAAggregate" where
  "aggregateSGPA subjs =
     (let detailed = map (\<lambda>s. (let m = computeSubjectMetrics (cie s) (see s) (credits s)
                                in (gpM m, weightedM m, credits s))) subjs;
          totalCredits = foldl (\<lambda>a (g, w, cr). a + cr) 0 detailed;
          totalWeighted = foldl (\<lambda>a (g, w, cr). a + w) 0 detailed;
          sgpa = (if totalCredits \<noteq> 0 then totalWeighted / totalCredits else 0);
          maxWeighted = foldl (\<lambda>sum s. (let maxTotal = cie s + scaleSee 100;
                                             maxGp = getGradePoint maxTotal
                                         in sum + maxGp * credits s)) 0 subjs;
          maxSgpaIfAll100 = (if totalCredits \<noteq> 0 then maxWeighted / totalCredits else 0)
      in \<lparr>sgpaA = round2 sgpa, totalCreditsA = totalCredits,
          totalWeightedA = round2 totalWeighted,
          maxSgpaIfAll100A = round2 maxSgpaIfAll100\<rparr>)"

definition aggregateCGPA :: "Semester list \<Rightarrow> CGPAAggregate" where
  "aggregateCGPA semesters =
     (let breakdown = map (\<lambda>sem. (let r = aggregateSGPA (semSubjects sem)
                                   in \<lparr>semesterId = semId sem, nameB = semName sem,
                                       sgpaB = sgpaA r, creditsB = totalCreditsA r\<rparr>))
                          semesters;
          totalCredits = foldl (\<lambda>a b. a + creditsB b) 0 breakdown;
          weightedSum = foldl (\<lambda>a b. a + sgpaB b * creditsB b) 0 breakdown;
          c = (if totalCredits \<noteq> 0 then weightedSum / totalCredits else 0)
      in \<lparr>cgpa = round2 c, totalCreditsC = totalCredits, semesterBreakdown = breakdown\<rparr>)"

section \<open>Predicates used in the statements\<close>

text \<open>No bucket of the configuration has its minimum at or below the total.\<close>

definition noBucketMatches :: "number \<Rightarrow> GradingConfig \<Rightarrow> bool" where
  "noBucketMatches t config = list_all (\<lambda>b. t < minB b) (buckets config)"

text \<open>The weighted points of one subject: grade point of its total, times credits.\<close>

definition weightedOf :: "GradingConfig \<Rightarrow> Subject \<Rightarrow> number" where
  "weightedOf config s = gpForTotal (cie s + scaleSEE (see s) config) config * credits s"



text \<open>
  The grade points of the buckets do not decrease as their minimum grows; no grade point
  is negative; some bucket has its minimum at or below 0 (the floor bucket).
\<close>

definition monotoneBuckets :: "GradingConfig \<Rightarrow> bool" where
  "monotoneBuckets config =
     list_all (\<lambda>b1. list_all (\<lambda>b2. minB b1 \<le> minB b2 \<longrightarrow> gpB b1 \<le> gpB b2) (buckets config))
       (buckets config)"

definition nonNegativeGps :: "GradingConfig \<Rightarrow> bool" where
  "nonNegativeGps config = list_all (\<lambda>b. 0 \<le> gpB b) (buckets config)"

definition hasFloorBucket :: "GradingConfig \<Rightarrow> bool" where
  "hasFloorBucket config = list_ex (\<lambda>b. minB b \<le> 0) (buckets config)"

text \<open>
  The semester \<open>sgpa\<close> recomputed with only the \<open>see\<close> of the subject at index \<open>i\<close>
  replaced by \<open>v\<close>.
\<close>

definition sgpaWithSee :: "Subject list \<Rightarrow> nat \<Rightarrow> GradingConfig \<Rightarrow> number \<Rightarrow> number" where
  "sgpaWithSee subjs i config v =
     sgpa (calculateSGPA (subjs[i := (subjs ! i)\<lparr>see := v\<rparr>]) config)"

section \<open>Properties of the engine\<close>

subsection \<open>Sorting and the bucket lookup\<close>

lemma sortBy_desc: "sortBy (\<lambda>a b. k b - k a) xs = sort_key (\<lambda>b. - k b) xs"
proof -
  have "insertBy (\<lambda>a b. k b - k a) x ys = insort_key (\<lambda>b. - k b) x ys" for x ys
    by (induction ys) auto
  then show ?thesis
    unfolding sortBy_def sort_key_def by (induction xs) simp_all
qed

lemma sortBy_asc: "sortBy (\<lambda>a b. k a - k b) xs = sort_key k xs"
proof -
  have "insertBy (\<lambda>a b. k a - k b) x ys = insort_key k x ys" for x ys
    by (induction ys) auto
  then show ?thesis
    unfolding sortBy_def sort_key_def by (induction xs) simp_all
qed

lemma sortedBuckets_sort_key: "sortedBuckets config = sort_key (\<lambda>b. - minB b) (buckets config)"
  by (simp add: sortedBuckets_def sortBy_desc)

lemma sortedBuckets_desc: "sorted_wrt (\<lambda>a b. minB b \<le> minB a) (sortedBuckets config)"
proof -
  have "sorted (map (\<lambda>b. - minB b) (sortedBuckets config))"
    by (simp add: sortedBuckets_sort_key)
  then show ?thesis
    by (simp add: sorted_map sorted_wrt_iff_nth_less)
qed

lemma sortedBuckets_mset: "mset (sortedBuckets config) = mset (buckets config)"
  by (simp add: sortedBuckets_sort_key)

lemma sortedBuckets_set: "set (sortedBuckets config) = set (buckets config)"
  by (simp add: sortedBuckets_sort_key)

lemma sortedBuckets_stable:
  "filter (\<lambda>b. minB b = m) (sortedBuckets config) = filter (\<lambda>b. minB b = m) (buckets config)"
proof -
  have "filter (\<lambda>b. - minB b = - m) (sort_key (\<lambda>b. - minB b) (buckets config))
        = filter (\<lambda>b. - minB b = - m) (buckets config)"
    by (rule sort_key_stable)
  then show ?thesis by (simp add: sortedBuckets_sort_key)
qed

lemma firstBucket_split:
  "\<exists>b\<in>set bs. minB b \<le> t \<Longrightarrow>
   \<exists>pre b post. bs = pre @ b # post \<and> (\<forall>p\<in>set pre. t < minB p) \<and> minB b \<le> t
     \<and> firstBucket t bs = gpB b"
proof (induction bs)
  case Nil
  then show ?case by simp
next
  case (Cons a bs)
  show ?case
  proof (cases "minB a \<le> t")
    case True
    then have "a # bs = [] @ a # bs \<and> (\<forall>p\<in>set []. t < minB p) \<and> minB a \<le> t
       \<and> firstBucket t (a # bs) = gpB a" by simp
    then show ?thesis by blast
  next
    case False
    with Cons.prems have "\<exists>b\<in>set bs. minB b \<le> t" by auto
    from Cons.IH[OF this] obtain pre b post where
      h: "bs = pre @ b # post" "\<forall>p\<in>set pre. t < minB p" "minB b \<le> t" "firstBucket t bs = gpB b"
      by blast
    with False have "a # bs = (a # pre) @ b # post \<and> (\<forall>p\<in>set (a # pre). t < minB p) \<and> minB b \<le> t
       \<and> firstBucket t (a # bs) = gpB b" by auto
    then show ?thesis by blast
  qed
qed

lemma firstBucket_none: "\<forall>b\<in>set bs. t < minB b \<Longrightarrow> firstBucket t bs = 0"
  by (induction bs) auto

lemma sortedBuckets_default:
  "sortedBuckets DEFAULT_GRADING_CONFIG = buckets DEFAULT_GRADING_CONFIG"
  by (simp add: sortedBuckets_def sortBy_def DEFAULT_GRADING_CONFIG_def)

lemma gpForTotal_default:
  "gpForTotal t DEFAULT_GRADING_CONFIG = (if 0 \<le> t then getGradePoint t else 0)"
  by (simp add: gpForTotal_def sortedBuckets_default getGradePoint_def)
     (simp add: DEFAULT_GRADING_CONFIG_def)

text \<open>
  C1. \<open>gpForTotal\<close> scans the buckets in descending order of their minimum (the sorted
  list is a permutation of the configured one, ordered by decreasing minimum) and, when
  some bucket has its minimum at or below the total, returns the grade point of the first
  such bucket: every bucket before it in the sorted list has its minimum above the total.
  Under the default table a total of 90 gets the grade point 10 of the bucket whose
  minimum is 90, and a total of 89.999 the grade point 9 of the next lower bucket.
\<close>

theorem gpForTotal_first_bucket:
  assumes "\<exists>b\<in>set (buckets config). minB b \<le> t"
  shows "sorted_wrt (\<lambda>a b. minB b \<le> minB a) (sortedBuckets config)
       \<and> mset (sortedBuckets config) = mset (buckets config)
       \<and> (\<exists>pre b post. sortedBuckets config = pre @ b # post
             \<and> (\<forall>p\<in>set pre. t < minB p) \<and> minB b \<le> t
             \<and> gpForTotal t config = gpB b)
       \<and> gpForTotal 90 DEFAULT_GRADING_CONFIG = 10
       \<and> gpForTotal (89999 / 1000) DEFAULT_GRADING_CONFIG = 9"
proof -
  from assms have "\<exists>b\<in>set (sortedBuckets config). minB b \<le> t"
    by (simp add: sortedBuckets_set)
  from firstBucket_split[OF this]
  have "\<exists>pre b post. sortedBuckets config = pre @ b # post
             \<and> (\<forall>p\<in>set pre. t < minB p) \<and> minB b \<le> t
             \<and> gpForTotal t config = gpB b"
    by (simp add: gpForTotal_def)
  moreover have "gpForTotal 90 DEFAULT_GRADING_CONFIG = 10"
    by (simp add: gpForTotal_default getGradePoint_def)
  moreover have "gpForTotal (89999 / 1000) DEFAULT_GRADING_CONFIG = 9"
    by (simp add: gpForTotal_default getGradePoint_def)
  ultimately show ?thesis
    using sortedBuckets_desc sortedBuckets_mset by blast
qed

theorem gpForTotal_first_bucket_witness:
  "(\<exists>b\<in>set (buckets DEFAULT_GRADING_CONFIG). minB b \<le> 85)
   \<and> (\<exists>pre b post. sortedBuckets DEFAULT_GRADING_CONFIG = pre @ b # post
             \<and> (\<forall>p\<in>set pre. 85 < minB p) \<and> minB b \<le> 85
             \<and> gpForTotal 85 DEFAULT_GRADING_CONFIG = gpB b)
   \<and> gpForTotal 85 DEFAULT_GRADING_CONFIG = 9"
proof -
  have h: "\<exists>b\<in>set (buckets DEFAULT_GRADING_CONFIG). minB b \<le> 85"
    by (simp add: DEFAULT_GRADING_CONFIG_def)
  have "gpForTotal 85 DEFAULT_GRADING_CONFIG = 9"
    by (simp add: gpForTotal_default getGradePoint_def)
  with h gpForTotal_first_bucket[OF h] show ?thesis by blast
qed


text \<open>
  C6. When no bucket has its minimum at or below the total, \<open>gpForTotal\<close> does not
  fail: it returns the fallback grade point 0. The total -1 under the default table is
  such an input.
\<close>

theorem gpForTotal_no_error_counterexample:
  "noBucketMatches (- 1) DEFAULT_GRADING_CONFIG \<and> gpForTotal (- 1) DEFAULT_GRADING_CONFIG = 0"
proof -
  have "noBucketMatches (- 1) DEFAULT_GRADING_CONFIG"
    by (simp add: noBucketMatches_def DEFAULT_GRADING_CONFIG_def)
  moreover have "gpForTotal (- 1) DEFAULT_GRADING_CONFIG = 0"
    by (simp add: gpForTotal_default)
  ultimately show ?thesis by simp
qed

text \<open>
  C6, as the code has it: when no bucket has its minimum at or below the total, the
  lookup returns the grade point 0.
\<close>

theorem gpForTotal_fallback:
  assumes "noBucketMatches t config"
  shows "gpForTotal t config = 0"
  using assms
  by (simp add: gpForTotal_def noBucketMatches_def list_all_iff firstBucket_none sortedBuckets_set)

theorem gpForTotal_fallback_witness:
  "noBucketMatches 35 (DEFAULT_GRADING_CONFIG\<lparr>buckets := [\<lparr>minB = 40, gpB = 5, label = None\<rparr>]\<rparr>)
   \<and> gpForTotal 35 (DEFAULT_GRADING_CONFIG\<lparr>buckets := [\<lparr>minB = 40, gpB = 5, label = None\<rparr>]\<rparr>) = 0"
proof -
  have h: "noBucketMatches 35
             (DEFAULT_GRADING_CONFIG\<lparr>buckets := [\<lparr>minB = 40, gpB = 5, label = None\<rparr>]\<rparr>)"
    by (simp add: noBucketMatches_def)
  with gpForTotal_fallback[OF h] show ?thesis by simp
qed

subsection \<open>Rounding and the semester aggregate\<close>



lemma foldl_add: "foldl (\<lambda>sum r. sum + f r) a xs = a + sum_list (map f xs)" for a :: number
  by (induction xs arbitrary: a) (simp_all add: add.assoc)

lemma Math_pow10_pos: "0 < Math_pow10 d"
  by (simp add: Math_pow10_def)

lemma roundTo_zero: "roundTo 0 d = 0"
  by (simp add: roundTo_def Math_round_def)

lemma roundTo_mono: "x \<le> y \<Longrightarrow> roundTo x d \<le> roundTo y d"
proof -
  assume "x \<le> y"
  then have "x * Math_pow10 d + 1 / 2 \<le> y * Math_pow10 d + 1 / 2"
    using Math_pow10_pos[of d] by simp
  then have "\<lfloor>x * Math_pow10 d + 1 / 2\<rfloor> \<le> \<lfloor>y * Math_pow10 d + 1 / 2\<rfloor>"
    by (rule floor_mono)
  then show ?thesis
    using Math_pow10_pos[of d] by (simp add: roundTo_def Math_round_def divide_le_cancel)
qed

lemma roundTo_scaled: "roundTo x d * Math_pow10 d = of_int \<lfloor>x * Math_pow10 d + 1 / 2\<rfloor>"
  using Math_pow10_pos[of d] by (simp add: roundTo_def Math_round_def)

lemma roundTo_close: "\<bar>roundTo x d - x\<bar> * Math_pow10 d \<le> 1 / 2"
proof -
  let ?m = "Math_pow10 d"
  have pos: "0 < ?m" by (rule Math_pow10_pos)
  have "\<bar>roundTo x d - x\<bar> * ?m = \<bar>roundTo x d * ?m - x * ?m\<bar>"
    using pos by (simp add: abs_mult_pos left_diff_distrib)
  also have "\<dots> = \<bar>of_int \<lfloor>x * ?m + 1 / 2\<rfloor> - x * ?m\<bar>"
    by (simp add: roundTo_scaled)
  also have "\<dots> \<le> 1 / 2"
    by linarith
  finally show ?thesis .
qed

lemma calculateSGPA_totalCredits:
  "totalCredits (calculateSGPA subjs config) = sum_list (map credits subjs)"
  by (simp add: calculateSGPA_def Let_def foldl_add o_def subjectResult_def)


lemma calculateSGPA_totalWeighted:
  "totalWeighted (calculateSGPA subjs config) = sum_list (map (weightedOf config) subjs)"
  by (simp add: calculateSGPA_def Let_def foldl_add o_def subjectResult_def
      calculateWeightedPoints_def weightedOf_def[abs_def])

lemma calculateSGPA_sgpa:
  "sgpa (calculateSGPA subjs config) =
     (if totalCredits (calculateSGPA subjs config) > 0
      then roundTo (totalWeighted (calculateSGPA subjs config)
                      / totalCredits (calculateSGPA subjs config)) (roundingDigits config)
      else 0)"
  by (simp add: calculateSGPA_def Let_def roundTo_zero)

lemma scaleSEE_default: "scaleSEE s DEFAULT_GRADING_CONFIG = s / 2"
  by (simp add: scaleSEE_def DEFAULT_GRADING_CONFIG_def)

lemma roundingDigits_default: "roundingDigits DEFAULT_GRADING_CONFIG = 2"
  by (simp add: DEFAULT_GRADING_CONFIG_def)

lemma roundTo_2: "roundTo x 2 = round2 x"
  by (simp add: roundTo_def round2_def Math_pow10_def)



lemma weightedOf_default:
  "weightedOf DEFAULT_GRADING_CONFIG s =
     (if 0 \<le> cie s + see s / 2 then getGradePoint (cie s + see s / 2) else 0) * credits s"
  by (simp add: weightedOf_def scaleSEE_default gpForTotal_default)

text \<open>
  C2. \<open>calculateSGPA\<close> returns the sum of the credits as \<open>totalCredits\<close>, the sum of grade
  point times credits as \<open>totalWeighted\<close>, and as \<open>sgpa\<close> their quotient rounded to
  \<open>roundingDigits\<close> digits when the credits sum is positive, and 0 otherwise, the empty
  list included. Rounding to \<open>d\<close> digits gives a multiple of \<open>10^-d\<close> at most half a unit
  of the last digit away. Subjects \<open>{cie=40, see=60, credits=4}\<close> and
  \<open>{cie=45, see=80, credits=3}\<close> under the default configuration give 7, 59 and 8.43.
\<close>

theorem calculateSGPA_totals:
  "totalCredits (calculateSGPA subjs config) = (\<Sum>s\<leftarrow>subjs. credits s)
   \<and> totalWeighted (calculateSGPA subjs config)
       = (\<Sum>s\<leftarrow>subjs. gpForTotal (cie s + scaleSEE (see s) config) config * credits s)
   \<and> sgpa (calculateSGPA subjs config)
       = (if (\<Sum>s\<leftarrow>subjs. credits s) > 0
          then roundTo ((\<Sum>s\<leftarrow>subjs. gpForTotal (cie s + scaleSEE (see s) config) config
                             * credits s)
                        / (\<Sum>s\<leftarrow>subjs. credits s)) (roundingDigits config)
          else 0)
   \<and> sgpa (calculateSGPA [] config) = 0
   \<and> \<bar>roundTo x d - x\<bar> * Math_pow10 d \<le> 1 / 2
   \<and> (\<exists>n::int. roundTo x d * Math_pow10 d = of_int n)
   \<and> totalCredits (calculateSGPA
         [\<lparr>code = ''S1'', name = ''First'', cie = 40, see = 60, credits = 4\<rparr>,
          \<lparr>code = ''S2'', name = ''Second'', cie = 45, see = 80, credits = 3\<rparr>]
         DEFAULT_GRADING_CONFIG) = 7
   \<and> totalWeighted (calculateSGPA
         [\<lparr>code = ''S1'', name = ''First'', cie = 40, see = 60, credits = 4\<rparr>,
          \<lparr>code = ''S2'', name = ''Second'', cie = 45, see = 80, credits = 3\<rparr>]
         DEFAULT_GRADING_CONFIG) = 59
   \<and> sgpa (calculateSGPA
         [\<lparr>code = ''S1'', name = ''First'', cie = 40, see = 60, credits = 4\<rparr>,
          \<lparr>code = ''S2'', name = ''Second'', cie = 45, see = 80, credits = 3\<rparr>]
         DEFAULT_GRADING_CONFIG) = 843 / 100"
proof -
  let ?ex = "[\<lparr>code = ''S1'', name = ''First'', cie = 40, see = 60, credits = 4\<rparr>,
              \<lparr>code = ''S2'', name = ''Second'', cie = 45, see = 80, credits = 3\<rparr>]"
  have c: "totalCredits (calculateSGPA subjs config) = (\<Sum>s\<leftarrow>subjs. credits s)" for subjs
    by (rule calculateSGPA_totalCredits)
  have w: "totalWeighted (calculateSGPA subjs config)
       = (\<Sum>s\<leftarrow>subjs. gpForTotal (cie s + scaleSEE (see s) config) config * credits s)"
    by (simp add: calculateSGPA_totalWeighted weightedOf_def[abs_def])
  have s: "sgpa (calculateSGPA subjs config)
       = (if (\<Sum>s\<leftarrow>subjs. credits s) > 0
          then roundTo ((\<Sum>s\<leftarrow>subjs. gpForTotal (cie s + scaleSEE (see s) config) config
                             * credits s)
                        / (\<Sum>s\<leftarrow>subjs. credits s)) (roundingDigits config)
          else 0)"
    using calculateSGPA_sgpa[of subjs config] by (simp only: c w)
  have e: "sgpa (calculateSGPA [] config) = 0"
    by (simp add: calculateSGPA_sgpa calculateSGPA_totalCredits)
  have r: "\<exists>n::int. roundTo x d * Math_pow10 d = of_int n"
    using roundTo_scaled by blast
  have e1: "totalCredits (calculateSGPA ?ex DEFAULT_GRADING_CONFIG) = 7"
    by (simp add: calculateSGPA_totalCredits)
  have e2: "totalWeighted (calculateSGPA ?ex DEFAULT_GRADING_CONFIG) = 59"
    by (simp add: calculateSGPA_totalWeighted weightedOf_default getGradePoint_def)
  have e3: "sgpa (calculateSGPA ?ex DEFAULT_GRADING_CONFIG) = 843 / 100"
    by (simp add: calculateSGPA_sgpa e1 e2 roundingDigits_default roundTo_2 round2_def
        Math_round_def)
  from c w s e roundTo_close r e1 e2 e3 show ?thesis by blast
qed

subsection \<open>The backend agrees with the frontend\<close>








lemma round2_zero: "round2 0 = 0"
  by (simp add: round2_def Math_round_def)

lemma round2_of_int: "round2 (of_int n) = of_int n"
proof -
  have "\<lfloor>real_of_int n * 100 + 1 / 2\<rfloor> = n * 100"
    by (rule floor_unique) simp_all
  then show ?thesis by (simp add: round2_def Math_round_def)
qed

lemma getGradePoint_Ints: "getGradePoint t \<in> \<int>"
  by (simp add: getGradePoint_def)






subsection \<open>The cumulative aggregate of the backend\<close>

text \<open>
  C9. \<open>aggregateCGPA\<close> returns as \<open>cgpa\<close> the sum of \<open>sgpa_i * credits_i\<close> divided by the
  sum of \<open>credits_i\<close>, rounded to 2 digits, where \<open>sgpa_i\<close> and \<open>credits_i\<close> are the
  (rounded) \<open>sgpa\<close> and the \<open>totalCredits\<close> that \<open>aggregateSGPA\<close> returns for the subjects
  of semester \<open>i\<close>; it returns 0 when the credits of all semesters sum to 0. Rounding
  to 2 digits gives a multiple of 0.01 at most 0.005 away.
\<close>

theorem aggregateCGPA_weighted_mean:
  "cgpa (aggregateCGPA semesters) =
     (if (\<Sum>sem\<leftarrow>semesters. totalCreditsA (aggregateSGPA (semSubjects sem))) \<noteq> 0
      then round2 ((\<Sum>sem\<leftarrow>semesters. sgpaA (aggregateSGPA (semSubjects sem))
                                      * totalCreditsA (aggregateSGPA (semSubjects sem)))
                   / (\<Sum>sem\<leftarrow>semesters. totalCreditsA (aggregateSGPA (semSubjects sem))))
      else 0)
   \<and> totalCreditsC (aggregateCGPA semesters)
       = (\<Sum>sem\<leftarrow>semesters. totalCreditsA (aggregateSGPA (semSubjects sem)))
   \<and> \<bar>round2 x - x\<bar> \<le> 1 / 200
   \<and> (\<exists>n::int. round2 x * 100 = of_int n)"
proof -
  have a: "cgpa (aggregateCGPA semesters) =
     (if (\<Sum>sem\<leftarrow>semesters. totalCreditsA (aggregateSGPA (semSubjects sem))) \<noteq> 0
      then round2 ((\<Sum>sem\<leftarrow>semesters. sgpaA (aggregateSGPA (semSubjects sem))
                                      * totalCreditsA (aggregateSGPA (semSubjects sem)))
                   / (\<Sum>sem\<leftarrow>semesters. totalCreditsA (aggregateSGPA (semSubjects sem))))
      else 0)"
    by (simp add: aggregateCGPA_def Let_def foldl_add o_def round2_zero)
  have b: "totalCreditsC (aggregateCGPA semesters)
       = (\<Sum>sem\<leftarrow>semesters. totalCreditsA (aggregateSGPA (semSubjects sem)))"
    by (simp add: aggregateCGPA_def Let_def foldl_add o_def)
  have c: "\<bar>round2 x - x\<bar> \<le> 1 / 200"
    using roundTo_close[of x 2] by (simp add: roundTo_2 Math_pow10_def)
  have d: "\<exists>n::int. round2 x * 100 = of_int n"
    by (simp add: round2_def Math_round_def)
  from a b c d show ?thesis by blast
qed


subsection \<open>Validation\<close>

text \<open>
  C7, as the code has it. \<open>validateSubject\<close> reports a subject as valid exactly when
  \<open>0 \<le> cie \<le> maxCIE\<close>, \<open>0 \<le> see \<le> maxSEE\<close>, \<open>credits > 0\<close> and neither the code nor
  the name is empty, and it reports by its result: \<open>valid\<close> is false exactly when the
  list of messages is not empty. The computation functions do not call it.
\<close>

theorem validateSubject_iff:
  "valid (validateSubject s config) =
     (0 \<le> cie s \<and> cie s \<le> maxCIE config \<and> 0 \<le> see s \<and> see s \<le> maxSEE config
      \<and> 0 < credits s \<and> code s \<noteq> [] \<and> name s \<noteq> [])
   \<and> valid (validateSubject s config) = (errors (validateSubject s config) = [])"
  by (auto simp: validateSubject_def Let_def)

text \<open>
  C7. A subject with \<open>cie = 60 > maxCIE\<close> is invalid for \<open>validateSubject\<close>, and
  \<open>calculateSGPA\<close> computes a numeric result on it all the same: 30 weighted points and
  an \<open>sgpa\<close> of 10.
\<close>

theorem calculateSGPA_unvalidated_counterexample:
  "\<not> valid (validateSubject
        \<lparr>code = ''S1'', name = ''First'', cie = 60, see = 100, credits = 3\<rparr>
        DEFAULT_GRADING_CONFIG)
   \<and> totalWeighted (calculateSGPA
        [\<lparr>code = ''S1'', name = ''First'', cie = 60, see = 100, credits = 3\<rparr>]
        DEFAULT_GRADING_CONFIG) = 30
   \<and> sgpa (calculateSGPA
        [\<lparr>code = ''S1'', name = ''First'', cie = 60, see = 100, credits = 3\<rparr>]
        DEFAULT_GRADING_CONFIG) = 10"
proof -
  let ?ex = "[\<lparr>code = ''S1'', name = ''First'', cie = 60, see = 100, credits = 3\<rparr>]"
  have a: "\<not> valid (validateSubject
        \<lparr>code = ''S1'', name = ''First'', cie = 60, see = 100, credits = 3\<rparr>
        DEFAULT_GRADING_CONFIG)"
    by (simp add: validateSubject_def Let_def DEFAULT_GRADING_CONFIG_def)
  have c: "totalCredits (calculateSGPA ?ex DEFAULT_GRADING_CONFIG) = 3"
    by (simp add: calculateSGPA_totalCredits)
  have w: "totalWeighted (calculateSGPA ?ex DEFAULT_GRADING_CONFIG) = 30"
    by (simp add: calculateSGPA_totalWeighted weightedOf_default getGradePoint_def)
  have "sgpa (calculateSGPA ?ex DEFAULT_GRADING_CONFIG) = 10"
    by (simp add: calculateSGPA_sgpa c w roundingDigits_default roundTo_2 round2_def
        Math_round_def)
  with a w show ?thesis by simp
qed

subsection \<open>Monotonicity in the end-semester marks\<close>

lemma firstBucket_in:
  "\<exists>b\<in>set bs. minB b \<le> t \<Longrightarrow> \<exists>c\<in>set bs. minB c \<le> t \<and> firstBucket t bs = gpB c"
  by (induction bs) auto

lemma firstBucket_mono:
  assumes "\<forall>b1\<in>set bs. \<forall>b2\<in>set bs. minB b1 \<le> minB b2 \<longrightarrow> gpB b1 \<le> gpB b2"
      and "(\<forall>b\<in>set bs. 0 \<le> gpB b) \<or> (\<exists>b\<in>set bs. minB b \<le> t)"
      and "t \<le> t'"
  shows "firstBucket t bs \<le> firstBucket t' bs"
  using assms
proof (induction bs)
  case Nil
  then show ?case by simp
next
  case (Cons b bs)
  consider (hit) "minB b \<le> t" | (cross) "t < minB b" "minB b \<le> t'" | (miss) "t' < minB b"
    by linarith
  then show ?case
  proof cases
    case hit
    with Cons.prems(3) show ?thesis by simp
  next
    case cross
    show ?thesis
    proof (cases "\<exists>c\<in>set bs. minB c \<le> t")
      case True
      from firstBucket_in[OF True] obtain c where
        c: "c \<in> set bs" "minB c \<le> t" "firstBucket t bs = gpB c"
        by blast
      with cross have "minB c \<le> minB b" by simp
      with Cons.prems(1) c(1) have "gpB c \<le> gpB b" by simp
      with cross c show ?thesis by simp
    next
      case False
      then have "firstBucket t bs = 0"
        by (intro firstBucket_none) (auto simp: not_le)
      moreover from False cross Cons.prems(2) have "0 \<le> gpB b" by auto
      ultimately show ?thesis using cross by simp
    qed
  next
    case miss
    with Cons.prems(3) have tb: "t < minB b" by simp
    have "firstBucket t bs \<le> firstBucket t' bs"
    proof (rule Cons.IH)
      show "\<forall>b1\<in>set bs. \<forall>b2\<in>set bs. minB b1 \<le> minB b2 \<longrightarrow> gpB b1 \<le> gpB b2"
        using Cons.prems(1) by simp
      show "(\<forall>b\<in>set bs. 0 \<le> gpB b) \<or> (\<exists>b\<in>set bs. minB b \<le> t)"
        using Cons.prems(2) tb by auto
      show "t \<le> t'" by (rule Cons.prems(3))
    qed
    with miss tb show ?thesis by simp
  qed
qed

lemma monotoneBuckets_iff:
  "monotoneBuckets config =
     (\<forall>b1\<in>set (buckets config). \<forall>b2\<in>set (buckets config).
         minB b1 \<le> minB b2 \<longrightarrow> gpB b1 \<le> gpB b2)"
  by (simp add: monotoneBuckets_def list_all_iff)

lemma gpForTotal_mono:
  assumes "monotoneBuckets config"
      and "nonNegativeGps config \<or> \<not> noBucketMatches t config"
      and "t \<le> t'"
  shows "gpForTotal t config \<le> gpForTotal t' config"
  unfolding gpForTotal_def
proof (rule firstBucket_mono)
  show "\<forall>b1\<in>set (sortedBuckets config). \<forall>b2\<in>set (sortedBuckets config).
          minB b1 \<le> minB b2 \<longrightarrow> gpB b1 \<le> gpB b2"
    using assms(1) by (simp add: monotoneBuckets_iff sortedBuckets_set)
  show "(\<forall>b\<in>set (sortedBuckets config). 0 \<le> gpB b)
        \<or> (\<exists>b\<in>set (sortedBuckets config). minB b \<le> t)"
    using assms(2)
    by (auto simp: nonNegativeGps_def noBucketMatches_def list_all_iff sortedBuckets_set not_less)
  show "t \<le> t'" by (rule assms(3))
qed

lemma scaleSEE_mono:
  assumes "0 < maxCIE config" "0 < maxSEE config" "s \<le> s'"
  shows "scaleSEE s config \<le> scaleSEE s' config"
  using assms by (simp add: scaleSEE_def divide_right_mono)

lemma scaleSEE_nonneg:
  assumes "0 < maxCIE config" "0 < maxSEE config" "0 \<le> s"
  shows "0 \<le> scaleSEE s config"
  using assms by (simp add: scaleSEE_def)

lemma mapAt_update: "mapAt i f xs = (if i < length xs then xs[i := f (xs ! i)] else xs)"
  by (auto simp: mapAt_def intro!: nth_equalityI)

lemma sum_list_map_update:
  "i < length xs \<Longrightarrow>
   sum_list (map f (xs[i := y])) = sum_list (map f xs) - f (xs ! i) + f y"
  for f :: "'a \<Rightarrow> real"
proof (induction xs arbitrary: i)
  case Nil
  then show ?case by simp
next
  case (Cons x xs)
  then show ?case by (cases i) simp_all
qed

lemma sgpa_update_mono:
  assumes i: "i < length subjs"
      and cr: "credits s = credits (subjs ! i)" "credits s' = credits (subjs ! i)"
      and w: "weightedOf config s \<le> weightedOf config s'"
  shows "sgpa (calculateSGPA (subjs[i := s]) config)
         \<le> sgpa (calculateSGPA (subjs[i := s']) config)"
proof -
  let ?C = "sum_list (map credits subjs)"
  have c1: "sum_list (map credits (subjs[i := s])) = ?C"
    using i cr by (simp add: sum_list_map_update)
  have c2: "sum_list (map credits (subjs[i := s'])) = ?C"
    using i cr by (simp add: sum_list_map_update)
  have le: "sum_list (map (weightedOf config) (subjs[i := s]))
            \<le> sum_list (map (weightedOf config) (subjs[i := s']))"
    using i w by (simp add: sum_list_map_update)
  show ?thesis
  proof (cases "0 < ?C")
    case True
    with le have "sum_list (map (weightedOf config) (subjs[i := s])) / ?C
            \<le> sum_list (map (weightedOf config) (subjs[i := s'])) / ?C"
      by (simp add: divide_right_mono)
    then show ?thesis
      using True
      by (simp add: calculateSGPA_sgpa calculateSGPA_totalCredits calculateSGPA_totalWeighted
          c1 c2 roundTo_mono)
  next
    case False
    then show ?thesis
      by (simp add: calculateSGPA_sgpa calculateSGPA_totalCredits c1 c2)
  qed
qed

lemma weightedOf_see_mono:
  assumes "0 < maxCIE config" "0 < maxSEE config" "monotoneBuckets config"
      and "nonNegativeGps config \<or> \<not> noBucketMatches (cie s + scaleSEE v config) config"
      and "0 \<le> credits s" "v \<le> v'"
  shows "weightedOf config (s\<lparr>see := v\<rparr>) \<le> weightedOf config (s\<lparr>see := v'\<rparr>)"
proof -
  have "cie s + scaleSEE v config \<le> cie s + scaleSEE v' config"
    using assms(1,2,6) by (simp add: scaleSEE_mono)
  then have "gpForTotal (cie s + scaleSEE v config) config
             \<le> gpForTotal (cie s + scaleSEE v' config) config"
    using assms(3,4) by (intro gpForTotal_mono)
  then show ?thesis
    using assms(5) by (simp add: weightedOf_def mult_right_mono)
qed

text \<open>
  C5, as the code has it. Under a configuration with positive \<open>maxCIE\<close> and \<open>maxSEE\<close>
  whose grade points are monotone non-decreasing in the buckets' minimum, and are all
  non-negative or have a bucket at or below the subject's current total, raising the
  \<open>see\<close> of one subject with non-negative credits, every other input fixed, never
  decreases that subject's grade point, its weighted points or the semester \<open>sgpa\<close>.
\<close>

theorem see_increase_monotone:
  assumes "0 < maxCIE config" and "0 < maxSEE config"
      and "monotoneBuckets config"
      and "nonNegativeGps config
           \<or> \<not> noBucketMatches (cie (subjs ! i) + scaleSEE (see (subjs ! i)) config) config"
      and "i < length subjs" and "0 \<le> credits (subjs ! i)"
      and "see (subjs ! i) \<le> v"
  shows "gpForTotal (cie (subjs ! i) + scaleSEE (see (subjs ! i)) config) config
           \<le> gpForTotal (cie (subjs ! i) + scaleSEE v config) config
       \<and> weightedOf config (subjs ! i) \<le> weightedOf config ((subjs ! i)\<lparr>see := v\<rparr>)
       \<and> sgpa (calculateSGPA subjs config)
           \<le> sgpa (calculateSGPA (subjs[i := (subjs ! i)\<lparr>see := v\<rparr>]) config)"
proof -
  let ?s = "subjs ! i"
  have "cie ?s + scaleSEE (see ?s) config \<le> cie ?s + scaleSEE v config"
    using assms(1,2,7) by (simp add: scaleSEE_mono)
  then have g: "gpForTotal (cie ?s + scaleSEE (see ?s) config) config
             \<le> gpForTotal (cie ?s + scaleSEE v config) config"
    using assms(3,4) by (intro gpForTotal_mono)
  have "weightedOf config (?s\<lparr>see := see ?s\<rparr>) \<le> weightedOf config (?s\<lparr>see := v\<rparr>)"
    using assms by (intro weightedOf_see_mono)
  then have w: "weightedOf config ?s \<le> weightedOf config (?s\<lparr>see := v\<rparr>)" by simp
  have "sgpa (calculateSGPA (subjs[i := ?s]) config)
           \<le> sgpa (calculateSGPA (subjs[i := ?s\<lparr>see := v\<rparr>]) config)"
    using assms(5) w by (intro sgpa_update_mono) simp_all
  then have "sgpa (calculateSGPA subjs config)
           \<le> sgpa (calculateSGPA (subjs[i := ?s\<lparr>see := v\<rparr>]) config)"
    by simp
  with g w show ?thesis by blast
qed


lemma monotoneBuckets_default: "monotoneBuckets DEFAULT_GRADING_CONFIG"
  by (simp add: monotoneBuckets_def DEFAULT_GRADING_CONFIG_def)

lemma nonNegativeGps_default: "nonNegativeGps DEFAULT_GRADING_CONFIG"
  by (simp add: nonNegativeGps_def DEFAULT_GRADING_CONFIG_def)

lemma hasFloorBucket_default: "hasFloorBucket DEFAULT_GRADING_CONFIG"
  by (simp add: hasFloorBucket_def DEFAULT_GRADING_CONFIG_def)

lemma maxima_default: "maxCIE DEFAULT_GRADING_CONFIG = 50" "maxSEE DEFAULT_GRADING_CONFIG = 100"
  by (simp_all add: DEFAULT_GRADING_CONFIG_def)

theorem see_increase_monotone_witness:
  "monotoneBuckets DEFAULT_GRADING_CONFIG \<and> nonNegativeGps DEFAULT_GRADING_CONFIG
   \<and> sgpa (calculateSGPA
        [\<lparr>code = ''S1'', name = ''First'', cie = 40, see = 60, credits = 4\<rparr>,
         \<lparr>code = ''S2'', name = ''Second'', cie = 45, see = 80, credits = 3\<rparr>]
        DEFAULT_GRADING_CONFIG)
     \<le> sgpa (calculateSGPA
        [\<lparr>code = ''S1'', name = ''First'', cie = 40, see = 80, credits = 4\<rparr>,
         \<lparr>code = ''S2'', name = ''Second'', cie = 45, see = 80, credits = 3\<rparr>]
        DEFAULT_GRADING_CONFIG)"
proof -
  let ?ex = "[\<lparr>code = ''S1'', name = ''First'', cie = 40, see = 60, credits = 4\<rparr>,
              \<lparr>code = ''S2'', name = ''Second'', cie = 45, see = 80, credits = 3\<rparr>]"
  have 1: "0 < maxCIE DEFAULT_GRADING_CONFIG" and 2: "0 < maxSEE DEFAULT_GRADING_CONFIG"
    by (simp_all add: maxima_default)
  have 4: "nonNegativeGps DEFAULT_GRADING_CONFIG
           \<or> \<not> noBucketMatches (cie (?ex ! 0) + scaleSEE (see (?ex ! 0)) DEFAULT_GRADING_CONFIG)
                  DEFAULT_GRADING_CONFIG"
    using nonNegativeGps_default by simp
  have 5: "0 < length ?ex" and 6: "0 \<le> credits (?ex ! 0)" and 7: "see (?ex ! 0) \<le> 80"
    by simp_all
  from see_increase_monotone[OF 1 2 monotoneBuckets_default 4 5 6 7]
  show ?thesis
    using monotoneBuckets_default nonNegativeGps_default by simp
qed

lemma gpForTotal_two_buckets:
  "gpForTotal t (DEFAULT_GRADING_CONFIG\<lparr>buckets :=
      [\<lparr>minB = 50, gpB = 1, label = None\<rparr>, \<lparr>minB = 0, gpB = 4, label = None\<rparr>]\<rparr>)
   = (if 50 \<le> t then 1 else if 0 \<le> t then 4 else 0)"
  by (simp add: gpForTotal_def sortedBuckets_def sortBy_def)

text \<open>
  C5. With the two buckets \<open>{min = 50, gp = 1}\<close> and \<open>{min = 0, gp = 4}\<close>, raising the
  \<open>see\<close> of the subject \<open>{cie = 40, credits = 3}\<close> from 0 to 20 lowers its grade point
  from 4 to 1 and the semester \<open>sgpa\<close> from 4 to 1.
\<close>

theorem see_increase_counterexample:
  "gpForTotal (40 + scaleSEE 20 (DEFAULT_GRADING_CONFIG\<lparr>buckets :=
        [\<lparr>minB = 50, gpB = 1, label = None\<rparr>, \<lparr>minB = 0, gpB = 4, label = None\<rparr>]\<rparr>))
      (DEFAULT_GRADING_CONFIG\<lparr>buckets :=
        [\<lparr>minB = 50, gpB = 1, label = None\<rparr>, \<lparr>minB = 0, gpB = 4, label = None\<rparr>]\<rparr>)
   < gpForTotal (40 + scaleSEE 0 (DEFAULT_GRADING_CONFIG\<lparr>buckets :=
        [\<lparr>minB = 50, gpB = 1, label = None\<rparr>, \<lparr>minB = 0, gpB = 4, label = None\<rparr>]\<rparr>))
      (DEFAULT_GRADING_CONFIG\<lparr>buckets :=
        [\<lparr>minB = 50, gpB = 1, label = None\<rparr>, \<lparr>minB = 0, gpB = 4, label = None\<rparr>]\<rparr>)
   \<and> sgpa (calculateSGPA [\<lparr>code = ''S1'', name = ''First'', cie = 40, see = 20, credits = 3\<rparr>]
        (DEFAULT_GRADING_CONFIG\<lparr>buckets :=
        [\<lparr>minB = 50, gpB = 1, label = None\<rparr>, \<lparr>minB = 0, gpB = 4, label = None\<rparr>]\<rparr>))
   < sgpa (calculateSGPA [\<lparr>code = ''S1'', name = ''First'', cie = 40, see = 0, credits = 3\<rparr>]
        (DEFAULT_GRADING_CONFIG\<lparr>buckets :=
        [\<lparr>minB = 50, gpB = 1, label = None\<rparr>, \<lparr>minB = 0, gpB = 4, label = None\<rparr>]\<rparr>))"
proof -
  let ?cfg = "DEFAULT_GRADING_CONFIG\<lparr>buckets :=
        [\<lparr>minB = 50, gpB = 1, label = None\<rparr>, \<lparr>minB = 0, gpB = 4, label = None\<rparr>]\<rparr>"
  have sc: "scaleSEE v ?cfg = v / 2" for v
    by (simp add: scaleSEE_def maxima_default)
  have rd: "roundingDigits ?cfg = 2"
    by (simp add: roundingDigits_default)
  have g: "gpForTotal (40 + scaleSEE 20 ?cfg) ?cfg < gpForTotal (40 + scaleSEE 0 ?cfg) ?cfg"
    by (simp add: sc gpForTotal_two_buckets)
  have a: "sgpa (calculateSGPA
             [\<lparr>code = ''S1'', name = ''First'', cie = 40, see = 20, credits = 3\<rparr>] ?cfg) = 1"
    by (simp add: calculateSGPA_sgpa calculateSGPA_totalCredits calculateSGPA_totalWeighted
        weightedOf_def sc gpForTotal_two_buckets rd roundTo_2 round2_def Math_round_def)
  have b: "sgpa (calculateSGPA
             [\<lparr>code = ''S1'', name = ''First'', cie = 40, see = 0, credits = 3\<rparr>] ?cfg) = 4"
    by (simp add: calculateSGPA_sgpa calculateSGPA_totalCredits calculateSGPA_totalWeighted
        weightedOf_def sc gpForTotal_two_buckets rd roundTo_2 round2_def Math_round_def)
  from g a b show ?thesis by simp
qed


subsection \<open>The binary search of the subject planner\<close>

lemma findIndex_Some:
  "findIndex P xs = Some i \<longleftrightarrow> i < length xs \<and> P (xs ! i) \<and> (\<forall>j<i. \<not> P (xs ! j))"
proof (induction xs arbitrary: i)
  case Nil
  then show ?case by simp
next
  case (Cons x xs)
  show ?case
  proof (cases "P x")
    case True
    then show ?thesis by (cases i) auto
  next
    case False
    show ?thesis
    proof (cases i)
      case 0
      with False show ?thesis by simp
    next
      case (Suc k)
      with False Cons.IH[of k] show ?thesis
        by (auto simp: less_Suc_eq_0_disj)
    qed
  qed
qed

lemma findIndex_present: "\<exists>x\<in>set xs. P x \<Longrightarrow> \<exists>i. findIndex P xs = Some i"
  by (induction xs) auto

lemma Math_floor_mid: "Math_floor ((of_int l + of_int r) / 2) = of_int ((l + r) div 2)"
proof -
  have "\<lfloor>(real_of_int l + real_of_int r) / 2\<rfloor> = \<lfloor>real_of_int (l + r) / real_of_int 2\<rfloor>"
    by simp
  also have "\<dots> = (l + r) div 2"
    by (rule floor_divide_of_int_eq)
  finally show ?thesis by (simp add: Math_floor_def)
qed

lemma searchLoop_threshold:
  fixes l r k :: int
  assumes "i < length subjs" and "l \<le> k" and "k \<le> r + 1"
      and "\<forall>v. l \<le> v \<and> v \<le> r \<longrightarrow>
             (targetSgpa \<le> sgpaWithSee subjs i config (of_int v)) = (k \<le> v)"
  shows "searchLoop subjs i targetSgpa config (of_int l) (of_int r) acc =
           (if k \<le> r then (of_int k, sgpaWithSee subjs i config (of_int k)) else acc)"
  using assms(2-)
proof (induction "nat (r - l + 1)" arbitrary: l r acc rule: less_induct)
  case less
  show ?case
  proof (cases "l \<le> r")
    case False
    with less.prems have "\<not> k \<le> r" by linarith
    with False show ?thesis
      by (subst searchLoop.simps) simp
  next
    case True
    let ?mid = "(l + r) div 2"
    have mid: "l \<le> ?mid" "?mid \<le> r" using True by linarith+
    have probe: "sgpa (calculateSGPA (mapAt i (\<lambda>s. s\<lparr>see := of_int ?mid\<rparr>) subjs) config)
                 = sgpaWithSee subjs i config (of_int ?mid)"
      using assms(1) by (simp add: mapAt_update sgpaWithSee_def)
    have P: "(targetSgpa \<le> sgpaWithSee subjs i config (of_int ?mid)) = (k \<le> ?mid)"
      using less.prems(3) mid by blast
    show ?thesis
    proof (cases "k \<le> ?mid")
      case hit: True
      have "searchLoop subjs i targetSgpa config (of_int l) (of_int r) acc
            = searchLoop subjs i targetSgpa config (of_int l) (of_int (?mid - 1))
                (of_int ?mid, sgpaWithSee subjs i config (of_int ?mid))"
        using True hit P by (subst searchLoop.simps) (simp add: Math_floor_mid probe)
      also have "\<dots> = (if k \<le> ?mid - 1 then (of_int k, sgpaWithSee subjs i config (of_int k))
                        else (of_int ?mid, sgpaWithSee subjs i config (of_int ?mid)))"
      proof (rule less.hyps)
        show "nat (?mid - 1 - l + 1) < nat (r - l + 1)" using mid True by linarith
        show "l \<le> k" by (rule less.prems(1))
        show "k \<le> ?mid - 1 + 1" using hit by simp
        show "\<forall>v. l \<le> v \<and> v \<le> ?mid - 1 \<longrightarrow>
               (targetSgpa \<le> sgpaWithSee subjs i config (of_int v)) = (k \<le> v)"
          using less.prems(3) mid by simp
      qed
      also have "\<dots> = (of_int k, sgpaWithSee subjs i config (of_int k))"
        using hit by (cases "k = ?mid") auto
      finally show ?thesis using hit mid by simp
    next
      case miss: False
      have "searchLoop subjs i targetSgpa config (of_int l) (of_int r) acc
            = searchLoop subjs i targetSgpa config (of_int (?mid + 1)) (of_int r) acc"
        using True miss P by (subst searchLoop.simps) (simp add: Math_floor_mid probe)
      also have "\<dots> = (if k \<le> r then (of_int k, sgpaWithSee subjs i config (of_int k)) else acc)"
      proof (rule less.hyps)
        show "nat (r - (?mid + 1) + 1) < nat (r - l + 1)" using mid True by linarith
        show "?mid + 1 \<le> k" using miss by simp
        show "k \<le> r + 1" by (rule less.prems(2))
        show "\<forall>v. ?mid + 1 \<le> v \<and> v \<le> r \<longrightarrow>
               (targetSgpa \<le> sgpaWithSee subjs i config (of_int v)) = (k \<le> v)"
          using less.prems(3) mid by simp
      qed
      finally show ?thesis .
    qed
  qed
qed


lemma sgpaWithSee_mono:
  assumes cfg: "0 < maxCIE config" "0 < maxSEE config" "monotoneBuckets config"
               "hasFloorBucket config"
      and i: "i < length subjs"
      and s: "0 \<le> cie (subjs ! i)" "0 \<le> credits (subjs ! i)"
      and v: "0 \<le> v" "v \<le> v'"
  shows "sgpaWithSee subjs i config v \<le> sgpaWithSee subjs i config v'"
proof -
  let ?s = "subjs ! i"
  from cfg(4) obtain b where b: "b \<in> set (buckets config)" "minB b \<le> 0"
    by (auto simp: hasFloorBucket_def list_ex_iff)
  have "0 \<le> cie ?s + scaleSEE v config"
    using s(1) scaleSEE_nonneg[OF cfg(1,2) v(1)] by simp
  with b have "\<not> noBucketMatches (cie ?s + scaleSEE v config) config"
    by (auto simp: noBucketMatches_def list_all_iff not_less intro!: bexI[of _ b])
  then have "weightedOf config (?s\<lparr>see := v\<rparr>) \<le> weightedOf config (?s\<lparr>see := v'\<rparr>)"
    using cfg s v by (intro weightedOf_see_mono) simp_all
  then show ?thesis
    unfolding sgpaWithSee_def using i by (intro sgpa_update_mono) simp_all
qed

lemma sgpaWithSee_antimono:
  assumes cfg: "0 < maxCIE config" "0 < maxSEE config" "monotoneBuckets config"
               "hasFloorBucket config"
      and i: "i < length subjs"
      and s: "0 \<le> cie (subjs ! i)" "credits (subjs ! i) \<le> 0"
      and v: "0 \<le> v" "v \<le> v'"
  shows "sgpaWithSee subjs i config v' \<le> sgpaWithSee subjs i config v"
proof -
  let ?s = "subjs ! i"
  from cfg(4) obtain b where b: "b \<in> set (buckets config)" "minB b \<le> 0"
    by (auto simp: hasFloorBucket_def list_ex_iff)
  have "0 \<le> cie ?s + scaleSEE v config"
    using s(1) scaleSEE_nonneg[OF cfg(1,2) v(1)] by simp
  with b have "\<not> noBucketMatches (cie ?s + scaleSEE v config) config"
    by (auto simp: noBucketMatches_def list_all_iff not_less intro!: bexI[of _ b])
  moreover have "cie ?s + scaleSEE v config \<le> cie ?s + scaleSEE v' config"
    using cfg(1,2) v(2) by (simp add: scaleSEE_mono)
  ultimately have "gpForTotal (cie ?s + scaleSEE v config) config
                   \<le> gpForTotal (cie ?s + scaleSEE v' config) config"
    using cfg(3) by (intro gpForTotal_mono) simp_all
  then have "weightedOf config (?s\<lparr>see := v'\<rparr>) \<le> weightedOf config (?s\<lparr>see := v\<rparr>)"
    using s(2) by (simp add: weightedOf_def mult_right_mono_neg)
  then show ?thesis
    unfolding sgpaWithSee_def using i by (intro sgpa_update_mono) simp_all
qed


text \<open>
  C3. Let the configuration have positive \<open>maxCIE\<close> and an integral positive \<open>maxSEE\<close>,
  grade points monotone non-decreasing in the buckets' minimum and a floor bucket; let
  every subject have its marks in range and an integral \<open>see\<close>, and let the target code
  occur in the list. If the current \<open>sgpa\<close> is below the target,
  \<open>findMinimalSEEForTarget\<close> returns a plan for the first subject with that code: when
  \<open>see = maxSEE\<close> reaches the target, \<open>possible\<close> is true and \<open>minSeeToReachTarget\<close> is the
  smallest integer in \<open>[currentSee, maxSEE]\<close> at which the semester \<open>sgpa\<close>, recomputed
  with only that subject's \<open>see\<close> replaced, reaches the target; otherwise \<open>possible\<close> is
  false and \<open>minSeeToReachTarget\<close> is -1.
\<close>

theorem findMinimalSEEForTarget_minimal:
  assumes cfg: "0 < maxCIE config" "0 < maxSEE config" "maxSEE config \<in> \<int>"
               "monotoneBuckets config" "hasFloorBucket config"
      and present: "\<exists>s\<in>set subjs. code s = c"
      and marks: "\<forall>s\<in>set subjs. 0 \<le> cie s \<and> cie s \<le> maxCIE config
                     \<and> 0 \<le> see s \<and> see s \<le> maxSEE config \<and> see s \<in> \<int>"
      and below: "sgpa (calculateSGPA subjs config) < targetSgpa"
  shows "\<exists>i plan. findIndex (\<lambda>s. code s = c) subjs = Some i
           \<and> findMinimalSEEForTarget subjs c targetSgpa config = Inr plan
           \<and> currentSee plan = see (subjs ! i)
           \<and> (if targetSgpa \<le> sgpaWithSee subjs i config (maxSEE config)
               then possible plan
                  \<and> minSeeToReachTarget plan \<in> \<int>
                  \<and> see (subjs ! i) \<le> minSeeToReachTarget plan
                  \<and> minSeeToReachTarget plan \<le> maxSEE config
                  \<and> targetSgpa \<le> sgpaWithSee subjs i config (minSeeToReachTarget plan)
                  \<and> achievedSgpa plan = sgpaWithSee subjs i config (minSeeToReachTarget plan)
                  \<and> (\<forall>v\<in>\<int>. see (subjs ! i) \<le> v \<and> v < minSeeToReachTarget plan
                         \<longrightarrow> sgpaWithSee subjs i config v < targetSgpa)
               else \<not> possible plan \<and> minSeeToReachTarget plan = - 1)"
proof -
  from findIndex_present[OF present] obtain i where
    fi: "findIndex (\<lambda>s. code s = c) subjs = Some i" by blast
  then have i: "i < length subjs" by (simp add: findIndex_Some)
  let ?s = "subjs ! i"
  have si: "?s \<in> set subjs" using i by simp
  with marks have s: "0 \<le> cie ?s" "0 \<le> see ?s" "see ?s \<le> maxSEE config" "see ?s \<in> \<int>"
    by auto
  from s(4) obtain l :: int where l: "see ?s = of_int l" by (auto simp: Ints_def)
  from cfg(3) obtain r :: int where r: "maxSEE config = of_int r" by (auto simp: Ints_def)
  have l0: "0 \<le> l" and lr: "l \<le> r" using s(2,3) l r by simp_all
  let ?P = "\<lambda>v::int. targetSgpa \<le> sgpaWithSee subjs i config (of_int v)"
  have cur: "sgpaWithSee subjs i config (of_int l) = sgpa (calculateSGPA subjs config)"
    using l[symmetric] by (simp add: sgpaWithSee_def)
  have mono: "?P v \<Longrightarrow> ?P v'" if "l \<le> v" "v \<le> v'" for v v'
  proof (cases "0 \<le> credits ?s")
    case True
    assume "?P v"
    moreover have "sgpaWithSee subjs i config (of_int v) \<le> sgpaWithSee subjs i config (of_int v')"
      using that l0 True by (intro sgpaWithSee_mono cfg i s) simp_all
    ultimately show "?P v'" by simp
  next
    case False
    assume "?P v"
    moreover have "sgpaWithSee subjs i config (of_int v) \<le> sgpaWithSee subjs i config (of_int l)"
      using that l0 False by (intro sgpaWithSee_antimono cfg i s) simp_all
    ultimately have "targetSgpa \<le> sgpa (calculateSGPA subjs config)"
      by (simp add: cur)
    with below show "?P v'" by simp
  qed
  let ?S = "{v. l \<le> v \<and> v \<le> r \<and> ?P v}"
  define k where "k = (if ?S = {} then r + 1 else Min ?S)"
  have fin: "finite ?S" by (rule finite_subset[of _ "{l..r}"]) auto
  have k_bounds: "l \<le> k \<and> k \<le> r + 1"
  proof (cases "?S = {}")
    case True
    with lr show ?thesis by (simp add: k_def)
  next
    case False
    from Min_in[OF fin False] have "l \<le> Min ?S \<and> Min ?S \<le> r" by simp
    with False show ?thesis by (simp add: k_def)
  qed
  have thr: "\<forall>v. l \<le> v \<and> v \<le> r \<longrightarrow> ?P v = (k \<le> v)"
  proof (intro allI impI)
    fix v assume v: "l \<le> v \<and> v \<le> r"
    show "?P v = (k \<le> v)"
    proof (cases "?S = {}")
      case True
      with v show ?thesis by (auto simp: k_def)
    next
      case False
      then have kin: "k \<in> ?S" using Min_in[OF fin False] by (simp add: k_def)
      show ?thesis
      proof
        assume "?P v"
        with v have "v \<in> ?S" by simp
        then show "k \<le> v" using False fin by (simp add: k_def)
      next
        assume "k \<le> v"
        with kin mono[of k v] show "?P v" by simp
      qed
    qed
  qed
  have sl: "searchLoop subjs i targetSgpa config (see ?s) (maxSEE config) acc =
           (if k \<le> r then (of_int k, sgpaWithSee subjs i config (of_int k)) else acc)" for acc
    unfolding l r by (rule searchLoop_threshold[OF i conjunct1[OF k_bounds] conjunct2[OF k_bounds] thr])
  have Pr: "?P r = (k \<le> r)" using thr lr by simp
  show ?thesis
  proof (cases "k \<le> r")
    case True
    let ?plan = "\<lparr>codeP = code ?s, nameP = name ?s, currentSee = see ?s,
                  minSeeToReachTarget = of_int k,
                  achievedSgpa = sgpaWithSee subjs i config (of_int k), possible = True,
                  marginalGain =
                    sgpa (calculateSGPA
                       (mapAt i (\<lambda>s. s\<lparr>see := min (see s + 1) (maxSEE config)\<rparr>) subjs) config)
                    - sgpa (calculateSGPA subjs config)\<rparr>"
    have kn: "real_of_int k \<noteq> - 1" using k_bounds l0 by linarith
    have res: "findMinimalSEEForTarget subjs c targetSgpa config = Inr ?plan"
      using below True kn
      by (simp only: findMinimalSEEForTarget_def fi option.case Let_def sl) simp
    have Pk: "?P k" using thr True k_bounds by simp
    have small: "\<forall>v\<in>\<int>. see ?s \<le> v \<and> v < of_int k \<longrightarrow> sgpaWithSee subjs i config v < targetSgpa"
    proof (intro ballI impI)
      fix v :: real assume "v \<in> \<int>" and b: "see ?s \<le> v \<and> v < of_int k"
      then obtain z :: int where z: "v = of_int z" by (auto simp: Ints_def)
      with b l have "l \<le> z" "z < k" by simp_all
      with thr True have "\<not> ?P z" by simp
      with z show "sgpaWithSee subjs i config v < targetSgpa" by simp
    qed
    have "possible ?plan \<and> minSeeToReachTarget ?plan \<in> \<int>
          \<and> see ?s \<le> minSeeToReachTarget ?plan \<and> minSeeToReachTarget ?plan \<le> maxSEE config
          \<and> targetSgpa \<le> sgpaWithSee subjs i config (minSeeToReachTarget ?plan)
          \<and> achievedSgpa ?plan = sgpaWithSee subjs i config (minSeeToReachTarget ?plan)
          \<and> (\<forall>v\<in>\<int>. see ?s \<le> v \<and> v < minSeeToReachTarget ?plan
                 \<longrightarrow> sgpaWithSee subjs i config v < targetSgpa)"
      using Pk small k_bounds True by (simp add: l r)
    moreover have "targetSgpa \<le> sgpaWithSee subjs i config (maxSEE config)"
      using Pr True by (simp add: r)
    moreover have "currentSee ?plan = see ?s" by simp
    ultimately show ?thesis using fi res by (intro exI[of _ i] exI[of _ ?plan]) simp
  next
    case False
    let ?plan = "\<lparr>codeP = code ?s, nameP = name ?s, currentSee = see ?s,
                  minSeeToReachTarget = - 1,
                  achievedSgpa = sgpa (calculateSGPA subjs config), possible = False,
                  marginalGain =
                    sgpa (calculateSGPA
                       (mapAt i (\<lambda>s. s\<lparr>see := min (see s + 1) (maxSEE config)\<rparr>) subjs) config)
                    - sgpa (calculateSGPA subjs config)\<rparr>"
    have res: "findMinimalSEEForTarget subjs c targetSgpa config = Inr ?plan"
      using below False
      by (simp only: findMinimalSEEForTarget_def fi option.case Let_def sl) simp
    have "\<not> targetSgpa \<le> sgpaWithSee subjs i config (maxSEE config)"
      using Pr False by (simp add: r)
    then show ?thesis using fi res by (intro exI[of _ i] exI[of _ ?plan]) simp
  qed
qed


lemma round2_getGradePoint: "round2 (getGradePoint t) = getGradePoint t"
  using getGradePoint_Ints[of t] by (auto simp: Ints_def round2_of_int)

lemma sgpaWithSee_single_default:
  assumes "0 \<le> c + v / 2" "0 < cr"
  shows "sgpaWithSee [\<lparr>code = cd, name = nm, cie = c, see = v0, credits = cr\<rparr>] 0
           DEFAULT_GRADING_CONFIG v = getGradePoint (c + v / 2)"
  using assms
  by (simp add: sgpaWithSee_def calculateSGPA_sgpa calculateSGPA_totalCredits
      calculateSGPA_totalWeighted weightedOf_default roundingDigits_default roundTo_2
      round2_getGradePoint)

theorem findMinimalSEEForTarget_minimal_witness:
  "\<exists>plan. findMinimalSEEForTarget
             [\<lparr>code = ''S1'', name = ''First'', cie = 40, see = 60, credits = 4\<rparr>]
             ''S1'' 9 DEFAULT_GRADING_CONFIG = Inr plan
          \<and> possible plan \<and> currentSee plan = 60 \<and> minSeeToReachTarget plan = 80
          \<and> achievedSgpa plan = 9
          \<and> (\<exists>plan'. findMinimalSEEForTarget
                 [\<lparr>code = ''S1'', name = ''First'', cie = 10, see = 0, credits = 3\<rparr>]
                 ''S1'' 10 DEFAULT_GRADING_CONFIG = Inr plan'
               \<and> \<not> possible plan' \<and> minSeeToReachTarget plan' = - 1)"
proof -
  let ?ex' = "[\<lparr>code = ''S1'', name = ''First'', cie = 10, see = 0, credits = 3\<rparr>]"
  have val': "sgpaWithSee ?ex' 0 DEFAULT_GRADING_CONFIG v = getGradePoint (10 + v / 2)"
    if "0 \<le> v" for v
    using that by (intro sgpaWithSee_single_default) simp_all
  have 6: "\<exists>s\<in>set ?ex'. code s = ''S1''" by simp
  have 7: "\<forall>s\<in>set ?ex'. 0 \<le> cie s \<and> cie s \<le> maxCIE DEFAULT_GRADING_CONFIG
                     \<and> 0 \<le> see s \<and> see s \<le> maxSEE DEFAULT_GRADING_CONFIG
                     \<and> see s \<in> \<int>"
    by (simp add: maxima_default)
  have "sgpa (calculateSGPA ?ex' DEFAULT_GRADING_CONFIG)
        = sgpaWithSee ?ex' 0 DEFAULT_GRADING_CONFIG 0"
    by (simp add: sgpaWithSee_def)
  then have 8: "sgpa (calculateSGPA ?ex' DEFAULT_GRADING_CONFIG) < 10"
    by (simp add: val' getGradePoint_def)
  have 1: "0 < maxCIE DEFAULT_GRADING_CONFIG" and 2: "0 < maxSEE DEFAULT_GRADING_CONFIG"
    and 3: "maxSEE DEFAULT_GRADING_CONFIG \<in> \<int>"
    by (simp_all add: maxima_default)
  from findMinimalSEEForTarget_minimal[OF 1 2 3 monotoneBuckets_default
      hasFloorBucket_default 6 7 8]
  obtain i' plan' where
    fi': "findIndex (\<lambda>s. code s = ''S1'') ?ex' = Some i'"
    and res': "findMinimalSEEForTarget ?ex' ''S1'' 10 DEFAULT_GRADING_CONFIG = Inr plan'"
    and sel': "if 10 \<le> sgpaWithSee ?ex' i' DEFAULT_GRADING_CONFIG
                          (maxSEE DEFAULT_GRADING_CONFIG)
               then possible plan'
                  \<and> minSeeToReachTarget plan' \<in> \<int>
                  \<and> see (?ex' ! i') \<le> minSeeToReachTarget plan'
                  \<and> minSeeToReachTarget plan' \<le> maxSEE DEFAULT_GRADING_CONFIG
                  \<and> 10 \<le> sgpaWithSee ?ex' i' DEFAULT_GRADING_CONFIG
                            (minSeeToReachTarget plan')
                  \<and> achievedSgpa plan' = sgpaWithSee ?ex' i' DEFAULT_GRADING_CONFIG
                                           (minSeeToReachTarget plan')
                  \<and> (\<forall>v\<in>\<int>. see (?ex' ! i') \<le> v \<and> v < minSeeToReachTarget plan'
                         \<longrightarrow> sgpaWithSee ?ex' i' DEFAULT_GRADING_CONFIG v < 10)
               else \<not> possible plan' \<and> minSeeToReachTarget plan' = - 1"
    by blast
  from fi' have "i' = 0" by simp
  moreover have "\<not> 10 \<le> sgpaWithSee ?ex' 0 DEFAULT_GRADING_CONFIG
                          (maxSEE DEFAULT_GRADING_CONFIG)"
    by (simp add: maxima_default val' getGradePoint_def)
  ultimately have "\<not> possible plan' \<and> minSeeToReachTarget plan' = - 1"
    using sel' by simp
  with res' have unreachable:
    "\<exists>plan'. findMinimalSEEForTarget ?ex' ''S1'' 10 DEFAULT_GRADING_CONFIG = Inr plan'
               \<and> \<not> possible plan' \<and> minSeeToReachTarget plan' = - 1"
    by blast
  let ?ex = "[\<lparr>code = ''S1'', name = ''First'', cie = 40, see = 60, credits = 4\<rparr>]"
  let ?cfg = DEFAULT_GRADING_CONFIG
  have val: "sgpaWithSee ?ex 0 ?cfg v = getGradePoint (40 + v / 2)" if "0 \<le> v" for v
    using that by (intro sgpaWithSee_single_default) simp_all
  have 6: "\<exists>s\<in>set ?ex. code s = ''S1''" by simp
  have 7: "\<forall>s\<in>set ?ex. 0 \<le> cie s \<and> cie s \<le> maxCIE ?cfg
                     \<and> 0 \<le> see s \<and> see s \<le> maxSEE ?cfg \<and> see s \<in> \<int>"
    by (simp add: maxima_default)
  have "sgpa (calculateSGPA ?ex ?cfg) = sgpaWithSee ?ex 0 ?cfg 60"
    by (simp add: sgpaWithSee_def)
  then have 8: "sgpa (calculateSGPA ?ex ?cfg) < 9"
    by (simp add: val getGradePoint_def)
  from findMinimalSEEForTarget_minimal[OF 1 2 3 monotoneBuckets_default
      hasFloorBucket_default 6 7 8]
  obtain i plan where
    fi: "findIndex (\<lambda>s. code s = ''S1'') ?ex = Some i"
    and res: "findMinimalSEEForTarget ?ex ''S1'' 9 ?cfg = Inr plan"
    and cur: "currentSee plan = see (?ex ! i)"
    and sel: "if 9 \<le> sgpaWithSee ?ex i ?cfg (maxSEE ?cfg)
               then possible plan
                  \<and> minSeeToReachTarget plan \<in> \<int>
                  \<and> see (?ex ! i) \<le> minSeeToReachTarget plan
                  \<and> minSeeToReachTarget plan \<le> maxSEE ?cfg
                  \<and> 9 \<le> sgpaWithSee ?ex i ?cfg (minSeeToReachTarget plan)
                  \<and> achievedSgpa plan = sgpaWithSee ?ex i ?cfg (minSeeToReachTarget plan)
                  \<and> (\<forall>v\<in>\<int>. see (?ex ! i) \<le> v \<and> v < minSeeToReachTarget plan
                         \<longrightarrow> sgpaWithSee ?ex i ?cfg v < 9)
               else \<not> possible plan \<and> minSeeToReachTarget plan = - 1"
    by blast
  from fi have i0: "i = 0" by simp
  let ?m = "minSeeToReachTarget plan"
  have top: "9 \<le> sgpaWithSee ?ex 0 ?cfg (maxSEE ?cfg)"
    by (simp add: maxima_default val getGradePoint_def)
  with sel i0 have p: "possible plan" and lo: "60 \<le> ?m"
    and hit: "9 \<le> sgpaWithSee ?ex 0 ?cfg ?m"
    and ach: "achievedSgpa plan = sgpaWithSee ?ex 0 ?cfg ?m"
    and least: "\<forall>v\<in>\<int>. 60 \<le> v \<and> v < ?m \<longrightarrow> sgpaWithSee ?ex 0 ?cfg v < 9"
    by simp_all
  from hit lo have ge: "80 \<le> ?m"
    by (simp add: val getGradePoint_def split: if_splits)
  have "\<not> 80 < ?m"
  proof
    assume "80 < ?m"
    with least have "sgpaWithSee ?ex 0 ?cfg 80 < 9" by simp
    then show False by (simp add: val getGradePoint_def)
  qed
  with ge have m: "?m = 80" by simp
  with ach have "achievedSgpa plan = 9" by (simp add: val getGradePoint_def)
  with res p cur i0 m unreachable show ?thesis by simp
qed

subsection \<open>The greedy planner: termination and the caller's store\<close>

lemma bestSubject_fold_index:
  "fst (foldl (\<lambda>(bestIndex, bestGain) i.
              if P i then (bestIndex, bestGain)
              else (if g i > bestGain then (Some i, g i) else (bestIndex, bestGain)))
           (b, x) is) = Some k \<Longrightarrow> k \<in> set is \<or> b = Some k"
  for x :: number
proof (induction "is" arbitrary: b x)
  case Nil
  then show ?case by simp
next
  case (Cons i "is")
  show ?case
  proof (cases "\<not> P i \<and> x < g i")
    case True
    with Cons.prems have "fst (foldl (\<lambda>(bestIndex, bestGain) i.
              if P i then (bestIndex, bestGain)
              else (if g i > bestGain then (Some i, g i) else (bestIndex, bestGain)))
           (Some i, g i) is) = Some k" by simp
    from Cons.IH[OF this] show ?thesis by auto
  next
    case False
    then have "(if P i then (b, x) else if x < g i then (Some i, g i) else (b, x)) = (b, x)"
      by auto
    with Cons.prems have "fst (foldl (\<lambda>(bestIndex, bestGain) i.
              if P i then (bestIndex, bestGain)
              else (if g i > bestGain then (Some i, g i) else (bestIndex, bestGain)))
           (b, x) is) = Some k" by simp
    from Cons.IH[OF this] show ?thesis by auto
  qed
qed

lemma bestSubject_index:
  assumes "fst (bestSubject ws cur config) = Some k"
  shows "k < length ws"
proof -
  have "k \<in> set [0..<length ws] \<or> (None :: nat option) = Some k"
    using assms unfolding bestSubject_def Let_def by (rule bestSubject_fold_index)
  then show ?thesis by simp
qed

lemma length_deref: "length (deref h as) = length as"
  by (simp add: deref_def)

lemma greedyBody_frame:
  assumes "\<forall>a\<in>set ws. n \<le> a"
  shows "take n (heap (snd (greedyBody config t ws st))) = take n (heap st)"
proof (cases "fst (bestSubject (deref (heap st) ws) (currentResult st) config)")
  case None
  then show ?thesis by (simp add: greedyBody_def)
next
  case (Some k)
  then have "k < length ws"
    using bestSubject_index[of "deref (heap st) ws"] by (simp add: length_deref)
  with assms have "n \<le> ws ! k" by simp
  with Some show ?thesis by (simp add: greedyBody_def Let_def)
qed

lemma greedyBody_steps:
  "\<exists>new. stepsAcc (snd (greedyBody config t ws st)) = stepsAcc st @ new \<and> length new \<le> 1"
  by (simp add: greedyBody_def Let_def split: option.split)

lemma greedyLoop_frame:
  "\<forall>a\<in>set ws. n \<le> a \<Longrightarrow>
   take n (heap (snd (greedyLoop config t ws it st))) = take n (heap st)"
proof (induction config t ws it st rule: greedyLoop.induct)
  case (1 config t ws it st)
  show ?case
  proof (cases "sgpa (currentResult st) < t \<and> it < maxIterations")
    case False
    then show ?thesis by (subst greedyLoop.simps) auto
  next
    case True
    note body = greedyBody_frame[OF "1.prems", of config t st]
    show ?thesis
    proof (cases "fst (greedyBody config t ws st)")
      case brk: True
      with True body show ?thesis by (subst greedyLoop.simps) simp
    next
      case cont: False
      from "1.IH"[OF True cont "1.prems"] body True cont show ?thesis
        by (subst greedyLoop.simps) simp
    qed
  qed
qed

lemma greedyLoop_iterations:
  "it \<le> fst (greedyLoop config t ws it st)
   \<and> fst (greedyLoop config t ws it st) \<le> max it maxIterations"
proof (induction config t ws it st rule: greedyLoop.induct)
  case (1 config t ws it st)
  show ?case
  proof (cases "sgpa (currentResult st) < t \<and> it < maxIterations")
    case False
    then show ?thesis by (subst (1 2) greedyLoop.simps) auto
  next
    case True
    show ?thesis
    proof (cases "fst (greedyBody config t ws st)")
      case brk: True
      with True show ?thesis by (subst (1 2) greedyLoop.simps) simp
    next
      case cont: False
      from "1.IH"[OF True cont] True cont show ?thesis
        by (subst (1 2) greedyLoop.simps) simp
    qed
  qed
qed

lemma greedyLoop_steps:
  "\<exists>new. stepsAcc (snd (greedyLoop config t ws it st)) = stepsAcc st @ new
         \<and> it + length new \<le> fst (greedyLoop config t ws it st)"
proof (induction config t ws it st rule: greedyLoop.induct)
  case (1 config t ws it st)
  show ?case
  proof (cases "sgpa (currentResult st) < t \<and> it < maxIterations")
    case False
    then show ?thesis by (subst (1 2) greedyLoop.simps) auto
  next
    case True
    from greedyBody_steps[of config t ws st] obtain new1 where
      n1: "stepsAcc (snd (greedyBody config t ws st)) = stepsAcc st @ new1" "length new1 \<le> 1"
      by blast
    show ?thesis
    proof (cases "fst (greedyBody config t ws st)")
      case brk: True
      with True n1 show ?thesis by (subst (1 2) greedyLoop.simps) simp
    next
      case cont: False
      from "1.IH"[OF True cont] obtain new2 where
        n2: "stepsAcc (snd (greedyLoop config t ws (it + 1) (snd (greedyBody config t ws st))))
               = stepsAcc (snd (greedyBody config t ws st)) @ new2"
            "it + 1 + length new2
               \<le> fst (greedyLoop config t ws (it + 1) (snd (greedyBody config t ws st)))"
        by blast
      have "stepsAcc (snd (greedyLoop config t ws it st)) = stepsAcc st @ (new1 @ new2)"
        using True cont n1 n2 by (subst greedyLoop.simps) simp
      moreover have "it + length (new1 @ new2) \<le> fst (greedyLoop config t ws it st)"
        using True cont n1 n2 by (subst greedyLoop.simps) simp
      ultimately show ?thesis by blast
    qed
  qed
qed

lemma greedyLoop_at_cap: "greedyLoop config t ws maxIterations st = (maxIterations, st)"
  by (subst greedyLoop.simps) simp

lemma greedy_example:
  "greedyGlobalPlan [\<lparr>code = ''S1'', name = ''First'', cie = 40, see = 79, credits = 4\<rparr>] [0] 9
     DEFAULT_GRADING_CONFIG
   = (\<lparr>steps = [\<lparr>codeS = ''S1'', nameS = ''First'', fromSee = 79, toSee = 80,
                    increaseSeeBy = 1, sgpaAfter = 9\<rparr>],
       finalSgpa = 9, targetReached = True, bestAttainableSgpa = 10\<rparr>,
      [\<lparr>code = ''S1'', name = ''First'', cie = 40, see = 79, credits = 4\<rparr>,
       \<lparr>code = ''S1'', name = ''First'', cie = 40, see = 80, credits = 4\<rparr>])"
  by code_simp

lemma greedy_example_iterations:
  "fst (greedyRun [\<lparr>code = ''S1'', name = ''First'', cie = 40, see = 79, credits = 4\<rparr>] [0] 9
          DEFAULT_GRADING_CONFIG) = 1"
  by code_simp

text \<open>
  C4. \<open>greedyGlobalPlan\<close> terminates (its loop is a total function), and the loop makes
  at most \<open>maxIterations = 1000\<close> passes. At the cap the loop stops and hands back the
  state it has, the accumulated steps included: no error is raised. The steps of the
  returned plan are the accumulated ones, at most one per pass and never dropped, and
  \<open>targetReached\<close> is true exactly when the final \<open>sgpa\<close> has reached the target, so it is
  false when the loop stops below the target, at the cap or before. One subject
  \<open>{cie = 40, see = 79, credits = 4}\<close> with target 9 takes one pass.
\<close>

theorem greedyGlobalPlan_bounded:
  "maxIterations = 1000
   \<and> fst (greedyRun h subjs t config) \<le> maxIterations
   \<and> greedyLoop config t ws maxIterations st = (maxIterations, st)
   \<and> steps (fst (greedyGlobalPlan h subjs t config)) = stepsAcc (snd (greedyRun h subjs t config))
   \<and> length (steps (fst (greedyGlobalPlan h subjs t config))) \<le> fst (greedyRun h subjs t config)
   \<and> (\<exists>new. stepsAcc (snd (greedyLoop config t ws it st)) = stepsAcc st @ new)
   \<and> finalSgpa (fst (greedyGlobalPlan h subjs t config))
       = sgpa (currentResult (snd (greedyRun h subjs t config)))
   \<and> targetReached (fst (greedyGlobalPlan h subjs t config))
       = (t \<le> finalSgpa (fst (greedyGlobalPlan h subjs t config)))
   \<and> fst (greedyRun [\<lparr>code = ''S1'', name = ''First'', cie = 40, see = 79, credits = 4\<rparr>] [0] 9
          DEFAULT_GRADING_CONFIG) = 1"
proof -
  have a: "fst (greedyRun h subjs t config) \<le> maxIterations"
    unfolding greedyRun_def Let_def
    using greedyLoop_iterations[of 0 config t] by simp
  have b: "steps (fst (greedyGlobalPlan h subjs t config))
             = stepsAcc (snd (greedyRun h subjs t config))"
    by (simp add: greedyGlobalPlan_def Let_def)
  have "\<exists>new. stepsAcc (snd (greedyRun h subjs t config)) = [] @ new
          \<and> 0 + length new \<le> fst (greedyRun h subjs t config)"
    unfolding greedyRun_def Let_def
    using greedyLoop_steps[of config t _ 0 "\<lparr>heap = _, stepsAcc = [], currentResult = _\<rparr>"]
    by simp
  then have c: "length (steps (fst (greedyGlobalPlan h subjs t config)))
                  \<le> fst (greedyRun h subjs t config)"
    by (auto simp: b)
  have d: "\<exists>new. stepsAcc (snd (greedyLoop config t ws it st)) = stepsAcc st @ new"
    using greedyLoop_steps[of config t ws it st] by blast
  have e: "finalSgpa (fst (greedyGlobalPlan h subjs t config))
       = sgpa (currentResult (snd (greedyRun h subjs t config)))"
    by (simp add: greedyGlobalPlan_def Let_def)
  have f: "targetReached (fst (greedyGlobalPlan h subjs t config))
       = (t \<le> finalSgpa (fst (greedyGlobalPlan h subjs t config)))"
    by (simp add: greedyGlobalPlan_def Let_def)
  from a b c d e f greedyLoop_at_cap maxIterations_def greedy_example_iterations
  show ?thesis by blast
qed

text \<open>
  C8. No engine function changes its caller's subjects. \<open>calculateSGPA\<close> and
  \<open>findMinimalSEEForTarget\<close>, the failing call with an unknown code included, leave the
  store as it is; \<open>greedyGlobalPlan\<close> leaves every object that existed before the call
  as it was, and assigns only to the copies it allocated: with one subject
  \<open>{cie = 40, see = 79, credits = 4}\<close> at address 0 and target 9, the object at address 0
  keeps \<open>see = 79\<close> and the copy at address 1 gets \<open>see = 80\<close>.
\<close>

theorem engine_leaves_inputs_unchanged:
  "snd (calculateSGPA_on h subjs config) = h
   \<and> snd (findMinimalSEEForTarget_on h subjs c t config) = h
   \<and> findMinimalSEEForTarget_on h [] c t config = (Inl (Subject_not_found c), h)
   \<and> take (length h) (snd (greedyGlobalPlan h subjs t config)) = h
   \<and> snd (greedyGlobalPlan
            [\<lparr>code = ''S1'', name = ''First'', cie = 40, see = 79, credits = 4\<rparr>] [0] 9
            DEFAULT_GRADING_CONFIG)
       = [\<lparr>code = ''S1'', name = ''First'', cie = 40, see = 79, credits = 4\<rparr>,
          \<lparr>code = ''S1'', name = ''First'', cie = 40, see = 80, credits = 4\<rparr>]"
proof -
  let ?ws = "[length h..<length h + length subjs]"
  have ws: "\<forall>a\<in>set ?ws. length h \<le> a" by simp
  have g: "take (length h) (snd (greedyGlobalPlan h subjs t config)) = h"
    unfolding greedyGlobalPlan_def greedyRun_def Let_def
    using greedyLoop_frame[OF ws] by simp
  have f: "findMinimalSEEForTarget_on h [] c t config = (Inl (Subject_not_found c), h)"
    by (simp add: findMinimalSEEForTarget_on_def findMinimalSEEForTarget_def deref_def)
  from g f show ?thesis
    by (simp add: calculateSGPA_on_def findMinimalSEEForTarget_on_def greedy_example)
qed

end
